theory Spec2Isabelle
  imports Complex_Main "HOL-Library.Sublist"
begin

section \<open>The simulation engine of the missile-defence game\<close>

text \<open>
  The engine lives in the React component \<^verbatim>\<open>App\<close>: the closures \<^verbatim>\<open>initGame\<close>,
  \<^verbatim>\<open>nextRound\<close>, \<^verbatim>\<open>spawnRocket\<close>, \<^verbatim>\<open>handleCanvasClick\<close> and \<^verbatim>\<open>update\<close> all mutate the one
  object \<^verbatim>\<open>stateRef.current\<close>. Here each closure is a function from the state before
  the call to the state after it.

  Modelling decisions:
  \<^item> a JavaScript \<^verbatim>\<open>number\<close> that holds a coordinate, a radius, a progress or a speed is a
    \<open>real\<close>; the counters (score, ammo, round, rockets to spawn) only ever hold integers
    and are \<open>int\<close>;
  \<^item> \<^verbatim>\<open>Math.random()\<close> reads an entropy source kept in the state (field \<open>rnd\<close>), so that
    every function is deterministic in its argument;
  \<^item> the React setters (\<^verbatim>\<open>setScore\<close>, \<^verbatim>\<open>setRound\<close>, \<^verbatim>\<open>setGameState\<close>) only mirror fields of
    the state for rendering and are left out;
  \<^item> objects are copied wherever the source stores a point (\<^verbatim>\<open>{ ...p }\<close>), so no two
    entities share a mutable point and lists of records are faithful.
\<close>

subsection \<open>Data model (types.ts)\<close>

datatype GameStatus = START | PLAYING | WON | LOST | ROUND_END

text \<open>The fields \<^verbatim>\<open>x\<close> and \<^verbatim>\<open>y\<close> of a point are \<open>px\<close> and \<open>py\<close>.\<close>

record Point =
  px :: real
  py :: real

text \<open>
  The interfaces share fields structurally; the records share them by extension.
  \<^verbatim>\<open>Entity\<close> is \<^verbatim>\<open>{id, pos}\<close>; the field \<^verbatim>\<open>id\<close> is \<open>id_tag\<close> and holds the random draw the
  source formats into a string (the engine never reads it back).
\<close>

record Located =
  pos :: Point

record Entity = Located +
  id_tag :: real

record EnemyRocket = Entity +
  start :: Point
  target :: Point
  progress :: real
  speed :: real

record InterceptorMissile = EnemyRocket +
  sourceTurretIndex :: int

record Explosion = Entity +
  radius :: real
  maxRadius :: real
  growing :: bool
  finished :: bool

record City = Located +
  destroyed :: bool

record Turret = City +
  ammo :: int
  maxAmmo :: int

text \<open>
  \<open>round_no\<close> is the field \<^verbatim>\<open>round\<close>. \<open>rnd\<close> is the entropy behind \<^verbatim>\<open>Math.random()\<close>: the
  sequence of values still to be drawn.
\<close>

record GameState =
  score :: int
  status :: GameStatus
  rockets :: "EnemyRocket list"
  missiles :: "InterceptorMissile list"
  explosions :: "Explosion list"
  turrets :: "Turret list"
  cities :: "City list"
  round_no :: int
  rocketsToSpawn :: int
  rnd :: "nat \<Rightarrow> real"

subsection \<open>Constants (constants.ts)\<close>

definition CANVAS_WIDTH :: real where "CANVAS_WIDTH = 800"
definition CANVAS_HEIGHT :: real where "CANVAS_HEIGHT = 600"
definition EXPLOSION_MAX_RADIUS :: real where "EXPLOSION_MAX_RADIUS = 40"
definition EXPLOSION_GROWTH_SPEED :: real where "EXPLOSION_GROWTH_SPEED = 3 / 2"
definition MISSILE_SPEED :: real where "MISSILE_SPEED = 2 / 100"
definition ROCKET_SPEED_BASE :: real where "ROCKET_SPEED_BASE = 1 / 1000"
definition ROCKET_SPEED_INC :: real where "ROCKET_SPEED_INC = 2 / 10000"
definition WIN_SCORE :: int where "WIN_SCORE = 1000"
definition TURRET_AMMO :: "int list" where "TURRET_AMMO = [10, 20, 10]"

named_theorems game_consts \<open>the values of the constants\<close>

subsection \<open>Library behaviour the engine relies on\<close>

text \<open>
  \<^verbatim>\<open>Math.random()\<close> returns a number in \<open>[0, 1)\<close> and advances the generator. The entropy
  is any sequence of reals; a draw is the fractional part of its head, so that every
  draw is in range whatever the sequence.
\<close>

definition Math_random :: "GameState \<Rightarrow> real \<times> GameState" where
  "Math_random s = (frac (rnd s 0), s\<lparr>rnd := (\<lambda>n. rnd s (Suc n))\<rparr>)"

text \<open>\<^verbatim>\<open>xs.splice(i, 1)\<close>: remove the element at index \<open>i\<close> and close the gap.\<close>

definition splice1 :: "nat \<Rightarrow> 'a list \<Rightarrow> 'a list" where
  "splice1 i xs = take i xs @ drop (Suc i) xs"

text \<open>
  \<^verbatim>\<open>arr.forEach((v, k) => body)\<close> on an array the body may splice and push to. ECMAScript
  reads the length once, before the first call, and then visits the indices
  \<open>0, 1, ..., len - 1\<close> in turn; an index that is no longer in the array is passed over,
  and the element handed to the body is the one found at the index at that moment.
  \<open>len\<close> reads the current length of the array out of the state; \<open>body k\<close> is the
  callback at index \<open>k\<close>, which looks its element up itself. The first numeric argument
  of \<open>forEach_from\<close> counts the indices still to visit.
\<close>

fun forEach_from :: "('s \<Rightarrow> nat) \<Rightarrow> (nat \<Rightarrow> 's \<Rightarrow> 's) \<Rightarrow> nat \<Rightarrow> nat \<Rightarrow> 's \<Rightarrow> 's" where
  "forEach_from len body 0 k s = s"
| "forEach_from len body (Suc n) k s =
     forEach_from len body n (Suc k) (if k < len s then body k s else s)"

definition forEach :: "('s \<Rightarrow> nat) \<Rightarrow> (nat \<Rightarrow> 's \<Rightarrow> 's) \<Rightarrow> 's \<Rightarrow> 's" where
  "forEach len body s = forEach_from len body (len s) 0 s"

subsection \<open>initGame\<close>

definition initGame :: "GameState \<Rightarrow> GameState" where
  "initGame s =
     \<lparr> score = 0,
       status = PLAYING,
       rockets = [],
       missiles = [],
       explosions = [],
       turrets =
         [ \<lparr> pos = \<lparr>px = 50, py = CANVAS_HEIGHT - 40\<rparr>, destroyed = False,
             ammo = TURRET_AMMO ! 0, maxAmmo = TURRET_AMMO ! 0 \<rparr>,
           \<lparr> pos = \<lparr>px = CANVAS_WIDTH / 2, py = CANVAS_HEIGHT - 40\<rparr>, destroyed = False,
             ammo = TURRET_AMMO ! 1, maxAmmo = TURRET_AMMO ! 1 \<rparr>,
           \<lparr> pos = \<lparr>px = CANVAS_WIDTH - 50, py = CANVAS_HEIGHT - 40\<rparr>, destroyed = False,
             ammo = TURRET_AMMO ! 2, maxAmmo = TURRET_AMMO ! 2 \<rparr> ],
       cities =
         [ \<lparr> pos = \<lparr>px = 150, py = CANVAS_HEIGHT - 20\<rparr>, destroyed = False \<rparr>,
           \<lparr> pos = \<lparr>px = 250, py = CANVAS_HEIGHT - 20\<rparr>, destroyed = False \<rparr>,
           \<lparr> pos = \<lparr>px = 350, py = CANVAS_HEIGHT - 20\<rparr>, destroyed = False \<rparr>,
           \<lparr> pos = \<lparr>px = 450, py = CANVAS_HEIGHT - 20\<rparr>, destroyed = False \<rparr>,
           \<lparr> pos = \<lparr>px = 550, py = CANVAS_HEIGHT - 20\<rparr>, destroyed = False \<rparr>,
           \<lparr> pos = \<lparr>px = 650, py = CANVAS_HEIGHT - 20\<rparr>, destroyed = False \<rparr> ],
       round_no = 1,
       rocketsToSpawn = 3,
       rnd = rnd s \<rparr>"

subsection \<open>nextRound\<close>

text \<open>
  The \<^verbatim>\<open>forEach\<close> over the turrets: it walks the array once, adds to \<^verbatim>\<open>ammoBonus\<close> and
  refills in place. The result is the array after the walk and the bonus.
\<close>

fun refill_turrets :: "Turret list \<Rightarrow> int \<Rightarrow> Turret list \<times> int" where
  "refill_turrets [] ammoBonus = ([], ammoBonus)"
| "refill_turrets (t # ts) ammoBonus =
     (if \<not> destroyed t
      then (case refill_turrets ts (ammoBonus + ammo t * 5) of
              (ts', b) \<Rightarrow> (t\<lparr>ammo := maxAmmo t\<rparr> # ts', b))
      else (case refill_turrets ts ammoBonus of (ts', b) \<Rightarrow> (t # ts', b)))"

definition nextRound :: "GameState \<Rightarrow> GameState" where
  "nextRound s =
     (case refill_turrets (turrets s) 0 of
        (ts, ammoBonus) \<Rightarrow>
          (let s1 = s\<lparr>turrets := ts, score := score s + ammoBonus\<rparr>;
               s2 = s1\<lparr>round_no := round_no s1 + 1\<rparr>;
               s3 = s2\<lparr>rocketsToSpawn := 3 + round_no s2 * 1\<rparr>
           in s3\<lparr>status := PLAYING\<rparr>))"

subsection \<open>spawnRocket\<close>

definition spawnRocket :: "GameState \<Rightarrow> GameState" where
  "spawnRocket s =
     (if status s \<noteq> PLAYING \<or> rocketsToSpawn s \<le> 0 then s
      else
        let s1 = s\<lparr>rocketsToSpawn := rocketsToSpawn s - 1\<rparr> in
        case Math_random s1 of (r1, s2) \<Rightarrow>
        let start_pt = \<lparr>px = r1 * CANVAS_WIDTH, py = 0\<rparr>;
            targets = map pos (filter (\<lambda>c. \<not> destroyed c) (cities s2))
                    @ map pos (filter (\<lambda>t. \<not> destroyed t) (turrets s2))
        in if length targets = 0 then s2
           else
             case Math_random s2 of (r2, s3) \<Rightarrow>
             let target_pt = targets ! nat \<lfloor>r2 * real (length targets)\<rfloor> in
             case Math_random s3 of (r3, s4) \<Rightarrow>
             case Math_random s4 of (r4, s5) \<Rightarrow>
             let newRocket =
                   \<lparr> pos = start_pt, id_tag = r3, start = start_pt, target = target_pt,
                     progress = 0,
                     speed = ROCKET_SPEED_BASE + real_of_int (round_no s5 - 1) * ROCKET_SPEED_INC
                             + r4 * (5 / 10000) \<rparr>
             in s5\<lparr>rockets := rockets s5 @ [newRocket]\<rparr>)"

subsection \<open>handleCanvasClick\<close>

text \<open>
  After the test of the status the handler looks the canvas up (it exists whenever an
  event of the canvas arrives) and maps the pointer event to a point of the logical
  canvas; both belong to the presentation layer, and the model starts from the point
  \<open>(x, y)\<close> the mapping yields. The search for the closest turret is the \<^verbatim>\<open>forEach\<close> with the two
  locals \<^verbatim>\<open>bestTurretIndex\<close> (from \<open>-1\<close>) and \<^verbatim>\<open>minDist\<close> (from \<^verbatim>\<open>Infinity\<close>, here \<open>None\<close>).
\<close>

fun closest_turret :: "real \<Rightarrow> Turret list \<Rightarrow> nat \<Rightarrow> int \<Rightarrow> real option \<Rightarrow> int" where
  "closest_turret x [] i bestTurretIndex minDist = bestTurretIndex"
| "closest_turret x (t # ts) i bestTurretIndex minDist =
     (if \<not> destroyed t \<and> ammo t > 0
      then (let dist = \<bar>px (pos t) - x\<bar> in
            if (case minDist of None \<Rightarrow> True | Some m \<Rightarrow> dist < m)
            then closest_turret x ts (Suc i) (int i) (Some dist)
            else closest_turret x ts (Suc i) bestTurretIndex minDist)
      else closest_turret x ts (Suc i) bestTurretIndex minDist)"

definition handleCanvasClick :: "Point \<Rightarrow> GameState \<Rightarrow> GameState" where
  "handleCanvasClick click s =
     (if status s \<noteq> PLAYING then s
      else
        let bestTurretIndex = closest_turret (px click) (turrets s) 0 (- 1) None in
        if bestTurretIndex \<noteq> - 1
        then
          let turret = turrets s ! nat bestTurretIndex;
              s1 = s\<lparr>turrets := (turrets s)[nat bestTurretIndex := turret\<lparr>ammo := ammo turret - 1\<rparr>]\<rparr>
          in case Math_random s1 of (r, s2) \<Rightarrow>
             let missile =
                   \<lparr> pos = pos turret, id_tag = r, start = pos turret, target = click,
                     progress = 0, speed = MISSILE_SPEED,
                     sourceTurretIndex = bestTurretIndex \<rparr>
             in s2\<lparr>missiles := missiles s2 @ [missile]\<rparr>
        else s)"

subsection \<open>update\<close>

text \<open>
  The motion of a rocket and of a missile is the same three assignments: add the speed
  to the progress, then recompute both coordinates of \<^verbatim>\<open>pos\<close> from the new progress.
\<close>

definition move :: "'a EnemyRocket_scheme \<Rightarrow> 'a EnemyRocket_scheme" where
  "move r =
     (let p = progress r + speed r in
      r\<lparr> progress := p,
         pos := \<lparr> px = px (start r) + (px (target r) - px (start r)) * p,
                  py = py (start r) + (py (target r) - py (start r)) * p \<rparr> \<rparr>)"

text \<open>\<^verbatim>\<open>state.explosions.push({...})\<close> with a fresh id, radius 0 and growing.\<close>

definition push_explosion :: "Point \<Rightarrow> real \<Rightarrow> GameState \<Rightarrow> GameState" where
  "push_explosion p mr s =
     (case Math_random s of (r, s1) \<Rightarrow>
        s1\<lparr>explosions := explosions s1 @
             [\<lparr> pos = p, id_tag = r, radius = 0, maxRadius = mr,
                growing = True, finished = False \<rparr>]\<rparr>)"

definition hit_city :: "Point \<Rightarrow> City \<Rightarrow> City" where
  "hit_city tg c =
     (if \<not> destroyed c \<and> \<bar>px (pos c) - px tg\<bar> < 10 \<and> \<bar>py (pos c) - py tg\<bar> < 10
      then c\<lparr>destroyed := True\<rparr> else c)"

definition hit_turret :: "Point \<Rightarrow> Turret \<Rightarrow> Turret" where
  "hit_turret tg t =
     (if \<not> destroyed t \<and> \<bar>px (pos t) - px tg\<bar> < 20 \<and> \<bar>py (pos t) - py tg\<bar> < 20
      then t\<lparr>destroyed := True\<rparr> else t)"

text \<open>Step 1, the callback of \<^verbatim>\<open>state.rockets.forEach((r, index) => ...)\<close>.\<close>

definition rocket_body :: "nat \<Rightarrow> GameState \<Rightarrow> GameState" where
  "rocket_body index s =
     (let r = move (rockets s ! index);
          s1 = s\<lparr>rockets := (rockets s)[index := r]\<rparr>
      in if progress r \<ge> 1
         then
           let s2 = push_explosion (target r) EXPLOSION_MAX_RADIUS s1;
               s3 = s2\<lparr>cities := map (hit_city (target r)) (cities s2)\<rparr>;
               s4 = s3\<lparr>turrets := map (hit_turret (target r)) (turrets s3)\<rparr>
           in s4\<lparr>rockets := splice1 index (rockets s4)\<rparr>
         else s1)"

definition update_rockets :: "GameState \<Rightarrow> GameState" where
  "update_rockets = forEach (\<lambda>s. length (rockets s)) rocket_body"

text \<open>Step 2, the callback of \<^verbatim>\<open>state.missiles.forEach((m, index) => ...)\<close>.\<close>

definition missile_body :: "nat \<Rightarrow> GameState \<Rightarrow> GameState" where
  "missile_body index s =
     (let m = move (missiles s ! index);
          s1 = s\<lparr>missiles := (missiles s)[index := m]\<rparr>
      in if progress m \<ge> 1
         then
           let s2 = push_explosion (target m) EXPLOSION_MAX_RADIUS s1
           in s2\<lparr>missiles := splice1 index (missiles s2)\<rparr>
         else s1)"

definition update_missiles :: "GameState \<Rightarrow> GameState" where
  "update_missiles = forEach (\<lambda>s. length (missiles s)) missile_body"

text \<open>Step 3: the growth and decay of one explosion.\<close>

definition explosion_tick :: "Explosion \<Rightarrow> Explosion" where
  "explosion_tick e =
     (if growing e
      then (let e1 = e\<lparr>radius := radius e + EXPLOSION_GROWTH_SPEED\<rparr>
            in if radius e1 \<ge> maxRadius e1 then e1\<lparr>growing := False\<rparr> else e1)
      else (let e1 = e\<lparr>radius := radius e - EXPLOSION_GROWTH_SPEED\<rparr>
            in if radius e1 \<le> 0 then e1\<lparr>finished := True\<rparr> else e1))"

text \<open>
  The inner callback \<^verbatim>\<open>state.rockets.forEach((r, rIdx) => ...)\<close> for the explosion \<open>e\<close>,
  whose centre and radius do not change while the rockets are walked.
\<close>

definition collide_body :: "Explosion \<Rightarrow> nat \<Rightarrow> GameState \<Rightarrow> GameState" where
  "collide_body e rIdx s =
     (let r = rockets s ! rIdx;
          dist = sqrt ((px (pos r) - px (pos e))\<^sup>2 + (py (pos r) - py (pos e))\<^sup>2)
      in if dist < radius e
         then
           let s1 = s\<lparr>score := score s + 20\<rparr>;
               s2 = push_explosion (pos r) (EXPLOSION_MAX_RADIUS / 2) s1
           in s2\<lparr>rockets := splice1 rIdx (rockets s2)\<rparr>
         else s)"

text \<open>The callback of \<^verbatim>\<open>state.explosions.forEach((e, index) => ...)\<close>.\<close>

definition explosion_body :: "nat \<Rightarrow> GameState \<Rightarrow> GameState" where
  "explosion_body index s =
     (let e = explosion_tick (explosions s ! index);
          s1 = s\<lparr>explosions := (explosions s)[index := e]\<rparr>
      in if finished e
         then s1\<lparr>explosions := splice1 index (explosions s1)\<rparr>
         else forEach (\<lambda>s. length (rockets s)) (collide_body e) s1)"

definition update_explosions :: "GameState \<Rightarrow> GameState" where
  "update_explosions = forEach (\<lambda>s. length (explosions s)) explosion_body"

text \<open>
  Step 4 and the spawn logic, from \<^verbatim>\<open>const allTurretsDestroyed\<close> to the end of \<^verbatim>\<open>update\<close>.
  The \<^verbatim>\<open>return\<close> in the win branch leaves the function; nothing follows the assignment
  of \<^verbatim>\<open>LOST\<close> but the next \<^verbatim>\<open>if\<close>.
\<close>

definition check_outcome :: "GameState \<Rightarrow> GameState" where
  "check_outcome s =
     (let allTurretsDestroyed = list_all destroyed (turrets s);
          s1 = (if allTurretsDestroyed then s\<lparr>status := LOST\<rparr> else s)
      in if score s1 \<ge> WIN_SCORE then s1\<lparr>status := WON\<rparr>
         else
           let s2 = (if rocketsToSpawn s1 = 0 \<and> length (rockets s1) = 0
                        \<and> length (explosions s1) = 0
                     then s1\<lparr>status := ROUND_END\<rparr> else s1)
           in if rocketsToSpawn s2 > 0
              then (case Math_random s2 of (r, s3) \<Rightarrow>
                      if r < 7 / 1000 + real_of_int (round_no s3) * (2 / 1000)
                      then spawnRocket s3 else s3)
              else s2)"

definition update :: "GameState \<Rightarrow> GameState" where
  "update s =
     (if status s \<noteq> PLAYING then s
      else check_outcome (update_explosions (update_missiles (update_rockets s))))"

section \<open>Vocabulary of the specification\<close>

text \<open>
  The value \<^verbatim>\<open>stateRef\<close> is created with: the state of the component before the first
  game, here with an entropy of zeros.
\<close>

definition initial_ref :: GameState where
  "initial_ref =
     \<lparr> score = 0, status = START, rockets = [], missiles = [], explosions = [],
       turrets = [], cities = [], round_no = 1, rocketsToSpawn = 3, rnd = (\<lambda>n. 0) \<rparr>"

text \<open>
  The observable states: the value \<^verbatim>\<open>stateRef\<close> is created with, and what a sequence of
  calls of the four entry points can leave in \<^verbatim>\<open>stateRef.current\<close>. The entropy of the
  first state is arbitrary, so every outcome of \<^verbatim>\<open>Math.random()\<close> is covered; \<^verbatim>\<open>initGame\<close>
  replaces whatever state it finds. The engine is called in any order here; the buttons
  of the page allow fewer orders.
\<close>

inductive reachable :: "GameState \<Rightarrow> bool" where
  boot: "reachable (initial_ref\<lparr>rnd := g\<rparr>)"
| init: "reachable (initGame s)"
| frame: "reachable s \<Longrightarrow> reachable (update s)"
| click: "reachable s \<Longrightarrow> reachable (handleCanvasClick p s)"
| round: "reachable s \<Longrightarrow> reachable (nextRound s)"

text \<open>One call of an entry point other than \<^verbatim>\<open>initGame\<close>.\<close>

inductive engine_step :: "GameState \<Rightarrow> GameState \<Rightarrow> bool" where
  by_frame: "engine_step s (update s)"
| by_click: "engine_step s (handleCanvasClick p s)"
| by_round: "engine_step s (nextRound s)"

text \<open>A turret that survives a round transition, and the bonus of a round transition.\<close>

definition refilled :: "Turret \<Rightarrow> Turret" where
  "refilled t = (if destroyed t then t else t\<lparr>ammo := maxAmmo t\<rparr>)"

definition ammo_bonus :: "Turret list \<Rightarrow> int" where
  "ammo_bonus ts = sum_list (map (\<lambda>t. ammo t * 5) (filter (\<lambda>t. \<not> destroyed t) ts))"

text \<open>
  A turret that can fire, and the turret a click at abscissa \<open>x\<close> must fire from: the
  index \<open>i\<close> of a turret that can fire, at least as close to \<open>x\<close> as every other
  that can fire, and strictly closer than every one before it in the array.
\<close>

definition eligible :: "Turret \<Rightarrow> bool" where
  "eligible t = (\<not> destroyed t \<and> 0 < ammo t)"

definition nearest_eligible :: "real \<Rightarrow> Turret list \<Rightarrow> nat \<Rightarrow> bool" where
  "nearest_eligible x ts i =
     (i < length ts \<and> eligible (ts ! i)
      \<and> (\<forall>k<length ts. eligible (ts ! k) \<longrightarrow>
             \<bar>px (pos (ts ! i)) - x\<bar> \<le> \<bar>px (pos (ts ! k)) - x\<bar>)
      \<and> (\<forall>k<i. eligible (ts ! k) \<longrightarrow>
             \<bar>px (pos (ts ! i)) - x\<bar> < \<bar>px (pos (ts ! k)) - x\<bar>))"

text \<open>The comparison \<^verbatim>\<open>dist < minDist\<close>, where \<open>None\<close> is \<^verbatim>\<open>Infinity\<close>.\<close>

definition below :: "real \<Rightarrow> real option \<Rightarrow> bool" where
  "below d m = (case m of None \<Rightarrow> True | Some v \<Rightarrow> d < v)"

text \<open>The bound on the ammo of a turret.\<close>

definition ammo_ok :: "Turret \<Rightarrow> bool" where
  "ammo_ok t = (0 \<le> ammo t \<and> ammo t \<le> maxAmmo t)"

text \<open>
  The rockets a frame destroys in the air: those that step 3 of \<^verbatim>\<open>update\<close> removes from
  the array.
\<close>

definition kills :: "GameState \<Rightarrow> nat" where
  "kills s =
     (if status s \<noteq> PLAYING then 0
      else let m = update_missiles (update_rockets s)
           in length (rockets m) - length (rockets (update_explosions m)))"

text \<open>
  What holds of every explosion between two calls: the radius is not negative and less
  than one growth step above the maximum, it is below the maximum while the explosion
  grows and positive while it shrinks, and the explosion is not marked finished.
\<close>

definition explosion_ok :: "Explosion \<Rightarrow> bool" where
  "explosion_ok e =
     (0 \<le> radius e \<and> radius e < maxRadius e + EXPLOSION_GROWTH_SPEED
      \<and> (growing e \<longrightarrow> radius e < maxRadius e)
      \<and> (\<not> growing e \<longrightarrow> 0 < radius e)
      \<and> \<not> finished e)"

text \<open>
  What a \<^verbatim>\<open>forEach\<close> does to the array it walks when its callback, at index \<open>k\<close>, either
  stores \<open>f\<close> of the element back or splices the element out (when \<open>gone\<close> holds of
  \<open>f\<close> of it). \<open>visit\<close> is that callback on the bare array. \<open>sweep\<close> is the array the
  whole walk leaves, by recursion on the array: after a removal the next element has
  moved to the index just visited, so the walk passes it by and it stays as it was.
\<close>

definition visit :: "('a \<Rightarrow> 'a) \<Rightarrow> ('a \<Rightarrow> bool) \<Rightarrow> nat \<Rightarrow> 'a list \<Rightarrow> 'a list" where
  "visit f gone k xs = (if gone (f (xs ! k)) then splice1 k xs else xs[k := f (xs ! k)])"

fun sweep :: "('a \<Rightarrow> 'a) \<Rightarrow> ('a \<Rightarrow> bool) \<Rightarrow> 'a list \<Rightarrow> 'a list" where
  "sweep f gone [] = []"
| "sweep f gone [x] = (if gone (f x) then [] else [f x])"
| "sweep f gone (x # y # ys) =
     (if gone (f x) then y # sweep f gone ys else f x # sweep f gone (y # ys))"

text \<open>The test \<^verbatim>\<open>dist < e.radius\<close> of a rocket against an explosion.\<close>

definition caught :: "Explosion \<Rightarrow> EnemyRocket \<Rightarrow> bool" where
  "caught e r =
     (sqrt ((px (pos r) - px (pos e))\<^sup>2 + (py (pos r) - py (pos e))\<^sup>2) < radius e)"

text \<open>
  A projectile is on course when its position is the point of the segment from its
  start to its target at its progress. \<open>advanced r r'\<close>: \<open>r'\<close> is the projectile \<open>r\<close>
  later in its flight (every field but progress and position is the same, and the
  progress is not smaller). \<open>survivors before after\<close>: the array \<open>after\<close> holds, in the
  order of \<open>before\<close>, later stages of some of the projectiles of \<open>before\<close> (the others
  were removed) and nothing else.
\<close>

definition on_course :: "'a EnemyRocket_scheme \<Rightarrow> bool" where
  "on_course r =
     (pos r = \<lparr> px = px (start r) + (px (target r) - px (start r)) * progress r,
                py = py (start r) + (py (target r) - py (start r)) * progress r \<rparr>)"

definition advanced :: "'a EnemyRocket_scheme \<Rightarrow> 'a EnemyRocket_scheme \<Rightarrow> bool" where
  "advanced r r' = (r' = r\<lparr>progress := progress r', pos := pos r'\<rparr> \<and> progress r \<le> progress r')"

definition survivors ::
  "'a EnemyRocket_scheme list \<Rightarrow> 'a EnemyRocket_scheme list \<Rightarrow> bool" where
  "survivors before after = (\<exists>kept. subseq kept before \<and> list_all2 advanced kept after)"

text \<open>
  The one call of \<^verbatim>\<open>spawnRocket\<close> in the program is the last statement of \<^verbatim>\<open>update\<close>.
  \<open>spawn_call s\<close> is the state that call finds when \<^verbatim>\<open>update\<close> starts in \<open>s\<close>, and \<open>None\<close>
  when \<^verbatim>\<open>update\<close> does not get to the call: the status is not PLAYING at the start, the
  win branch returns, no rocket is left to spawn, or the draw is not below the spawn
  probability.
\<close>

definition spawn_call :: "GameState \<Rightarrow> GameState option" where
  "spawn_call s =
     (if status s \<noteq> PLAYING then None
      else
        let t = update_explosions (update_missiles (update_rockets s));
            allTurretsDestroyed = list_all destroyed (turrets t);
            s1 = (if allTurretsDestroyed then t\<lparr>status := LOST\<rparr> else t)
        in if score s1 \<ge> WIN_SCORE then None
           else
             let s2 = (if rocketsToSpawn s1 = 0 \<and> length (rockets s1) = 0
                          \<and> length (explosions s1) = 0
                       then s1\<lparr>status := ROUND_END\<rparr> else s1)
             in if rocketsToSpawn s2 > 0
                then (case Math_random s2 of (r, s3) \<Rightarrow>
                        if r < 7 / 1000 + real_of_int (round_no s3) * (2 / 1000)
                        then Some s3 else None)
                else None)"

text \<open>
  The rocket \<^verbatim>\<open>spawnRocket\<close> pushes when it is called in the state \<open>u\<close> and finds a
  target: the object literal of the source, with the four draws in the order the source
  makes them (start, target, id, speed).
\<close>

definition newRocket :: "GameState \<Rightarrow> EnemyRocket" where
  "newRocket u =
     (let start_pt = \<lparr>px = frac (rnd u 0) * CANVAS_WIDTH, py = 0\<rparr>;
          targets = map pos (filter (\<lambda>c. \<not> destroyed c) (cities u))
                  @ map pos (filter (\<lambda>t. \<not> destroyed t) (turrets u))
      in \<lparr> pos = start_pt, id_tag = frac (rnd u 2), start = start_pt,
           target = targets ! nat \<lfloor>frac (rnd u 1) * real (length targets)\<rfloor>,
           progress = 0,
           speed = ROCKET_SPEED_BASE + real_of_int (round_no u - 1) * ROCKET_SPEED_INC
                   + frac (rnd u 3) * (5 / 10000) \<rparr>)"

text \<open>The invariant of the flights: on course, never flying backwards; rounds count from 1.\<close>

definition flight_ok :: "'a EnemyRocket_scheme \<Rightarrow> bool" where
  "flight_ok r = (on_course r \<and> 0 \<le> speed r)"

definition flights_ok :: "GameState \<Rightarrow> bool" where
  "flights_ok s =
     ((\<forall>r\<in>set (rockets s). flight_ok r) \<and> (\<forall>m\<in>set (missiles s). flight_ok m)
      \<and> 1 \<le> round_no s)"

section \<open>States used as examples\<close>

definition fresh_game :: GameState where
  "fresh_game = initGame initial_ref"

text \<open>
  The end of a round with the left turret at 3 rounds, the middle one at 7 and the right
  one destroyed.
\<close>

definition round_over :: GameState where
  "round_over =
     fresh_game
       \<lparr> status := ROUND_END, rocketsToSpawn := 0, score := 120,
         turrets :=
           [ \<lparr> pos = \<lparr>px = 50, py = 560\<rparr>, destroyed = False, ammo = 3, maxAmmo = 10 \<rparr>,
             \<lparr> pos = \<lparr>px = 400, py = 560\<rparr>, destroyed = False, ammo = 7, maxAmmo = 20 \<rparr>,
             \<lparr> pos = \<lparr>px = 750, py = 560\<rparr>, destroyed = True, ammo = 4, maxAmmo = 10 \<rparr> ] \<rparr>"

text \<open>A click left of the middle of the canvas.\<close>

definition aim :: Point where
  "aim = \<lparr>px = 200, py = 300\<rparr>"

text \<open>A new game after one click.\<close>

definition after_shot :: GameState where
  "after_shot = handleCanvasClick aim fresh_game"

text \<open>
  A game whose entropy never lets a rocket spawn (every draw is 1/2), the states of that
  game while the missile of one click at \<open>aim\<close> is in flight (\<open>k\<close> frames after the
  click), and the state after the 50th frame, in which the missile has detonated.
\<close>

definition quiet_game :: GameState where
  "quiet_game = initGame (initial_ref\<lparr>rnd := (\<lambda>n. 1 / 2)\<rparr>)"

definition in_flight :: "nat \<Rightarrow> GameState" where
  "in_flight k =
     quiet_game\<lparr> turrets :=
         [ \<lparr> pos = \<lparr>px = 50, py = 560\<rparr>, destroyed = False, ammo = 9, maxAmmo = 10 \<rparr>,
           \<lparr> pos = \<lparr>px = 400, py = 560\<rparr>, destroyed = False, ammo = 20, maxAmmo = 20 \<rparr>,
           \<lparr> pos = \<lparr>px = 750, py = 560\<rparr>, destroyed = False, ammo = 10, maxAmmo = 10 \<rparr> ],
       missiles :=
         [\<lparr> pos = \<lparr>px = 50 + 150 * (real k / 50), py = 560 + (- 260) * (real k / 50)\<rparr>,
            id_tag = 1 / 2, start = \<lparr>px = 50, py = 560\<rparr>,
            target = aim, progress = real k / 50, speed = MISSILE_SPEED,
            sourceTurretIndex = 0 \<rparr>] \<rparr>"

definition burst :: GameState where
  "burst =
     quiet_game\<lparr> turrets :=
         [ \<lparr> pos = \<lparr>px = 50, py = 560\<rparr>, destroyed = False, ammo = 9, maxAmmo = 10 \<rparr>,
           \<lparr> pos = \<lparr>px = 400, py = 560\<rparr>, destroyed = False, ammo = 20, maxAmmo = 20 \<rparr>,
           \<lparr> pos = \<lparr>px = 750, py = 560\<rparr>, destroyed = False, ammo = 10, maxAmmo = 10 \<rparr> ],
       explosions :=
         [\<lparr> pos = aim, id_tag = 1 / 2, radius = 3 / 2, maxRadius = 40,
            growing = True, finished = False \<rparr>] \<rparr>"

text \<open>The frame after the click of \<open>after_shot\<close>: the missile has moved and a rocket has spawned.\<close>

definition first_frame :: GameState where
  "first_frame = update after_shot"

text \<open>
  Two rockets in flight, both on course: the first reaches its target in the next frame,
  the second is half way.
\<close>

definition crowded :: GameState where
  "crowded =
     quiet_game\<lparr> rockets :=
       [\<lparr> pos = \<lparr>px = 5999 / 40, py = 57971 / 100\<rparr>, id_tag = 1 / 2,
          start = \<lparr>px = 100, py = 0\<rparr>, target = \<lparr>px = 150, py = 580\<rparr>,
          progress = 1999 / 2000, speed = 1 / 1000 \<rparr>,
        \<lparr> pos = \<lparr>px = 325, py = 290\<rparr>, id_tag = 1 / 2,
          start = \<lparr>px = 300, py = 0\<rparr>, target = \<lparr>px = 350, py = 580\<rparr>,
          progress = 1 / 2, speed = 1 / 1000 \<rparr>] \<rparr>"

text \<open>
  One turret left and 980 points. The first rocket is inside a growing explosion; the
  second reaches the last turret in the next frame.
\<close>

definition last_stand :: GameState where
  "last_stand =
     quiet_game\<lparr> score := 980,
       turrets :=
         [ \<lparr> pos = \<lparr>px = 50, py = 560\<rparr>, destroyed = True, ammo = 4, maxAmmo = 10 \<rparr>,
           \<lparr> pos = \<lparr>px = 400, py = 560\<rparr>, destroyed = True, ammo = 0, maxAmmo = 20 \<rparr>,
           \<lparr> pos = \<lparr>px = 750, py = 560\<rparr>, destroyed = False, ammo = 2, maxAmmo = 10 \<rparr> ],
       rockets :=
         [\<lparr> pos = \<lparr>px = 325, py = 290\<rparr>, id_tag = 1 / 2,
            start = \<lparr>px = 300, py = 0\<rparr>, target = \<lparr>px = 350, py = 580\<rparr>,
            progress = 1 / 2, speed = 1 / 1000 \<rparr>,
          \<lparr> pos = \<lparr>px = 29999 / 40, py = 13993 / 25\<rparr>, id_tag = 1 / 2,
            start = \<lparr>px = 700, py = 0\<rparr>, target = \<lparr>px = 750, py = 560\<rparr>,
            progress = 1999 / 2000, speed = 1 / 1000 \<rparr>],
       explosions :=
         [\<lparr> pos = \<lparr>px = 325, py = 290\<rparr>, id_tag = 1 / 2, radius = 30, maxRadius = 40,
            growing = True, finished = False \<rparr>] \<rparr>"

text \<open>A game in progress in which every city and every turret is destroyed.\<close>

definition defenceless :: GameState where
  "defenceless =
     quiet_game\<lparr> cities := map (\<lambda>c. c\<lparr>destroyed := True\<rparr>) (cities quiet_game),
                 turrets := map (\<lambda>t. t\<lparr>destroyed := True\<rparr>) (turrets quiet_game) \<rparr>"

text \<open>
  The explosion of that missile \<open>k\<close> frames after the detonation, while it grows, and
  the state one frame after the 26th.
\<close>

definition glow :: "nat \<Rightarrow> GameState" where
  "glow k =
     quiet_game\<lparr> turrets :=
         [ \<lparr> pos = \<lparr>px = 50, py = 560\<rparr>, destroyed = False, ammo = 9, maxAmmo = 10 \<rparr>,
           \<lparr> pos = \<lparr>px = 400, py = 560\<rparr>, destroyed = False, ammo = 20, maxAmmo = 20 \<rparr>,
           \<lparr> pos = \<lparr>px = 750, py = 560\<rparr>, destroyed = False, ammo = 10, maxAmmo = 10 \<rparr> ],
       explosions :=
         [\<lparr> pos = aim, id_tag = 1 / 2, radius = 3 / 2 * real k, maxRadius = 40,
            growing = True, finished = False \<rparr>] \<rparr>"

definition peak :: GameState where
  "peak = update (glow 26)"

text \<open>
  Every city and two turrets are destroyed, and a rocket reaches the last turret in the
  next frame; \<open>ruins\<close> is the state that frame leaves.
\<close>

definition final_blow :: GameState where
  "final_blow =
     fresh_game\<lparr>
       cities := map (\<lambda>c. c\<lparr>destroyed := True\<rparr>) (cities fresh_game),
       turrets :=
         [ \<lparr> pos = \<lparr>px = 50, py = 560\<rparr>, destroyed = True, ammo = 4, maxAmmo = 10 \<rparr>,
           \<lparr> pos = \<lparr>px = 400, py = 560\<rparr>, destroyed = True, ammo = 0, maxAmmo = 20 \<rparr>,
           \<lparr> pos = \<lparr>px = 750, py = 560\<rparr>, destroyed = False, ammo = 2, maxAmmo = 10 \<rparr> ],
       rockets :=
         [\<lparr> pos = \<lparr>px = 29999 / 40, py = 13993 / 25\<rparr>, id_tag = 0,
            start = \<lparr>px = 700, py = 0\<rparr>, target = \<lparr>px = 750, py = 560\<rparr>,
            progress = 1999 / 2000, speed = 1 / 1000 \<rparr>] \<rparr>"

definition ruins :: GameState where
  "ruins =
     fresh_game\<lparr>
       status := LOST,
       cities := map (\<lambda>c. c\<lparr>destroyed := True\<rparr>) (cities fresh_game),
       turrets :=
         [ \<lparr> pos = \<lparr>px = 50, py = 560\<rparr>, destroyed = True, ammo = 4, maxAmmo = 10 \<rparr>,
           \<lparr> pos = \<lparr>px = 400, py = 560\<rparr>, destroyed = True, ammo = 0, maxAmmo = 20 \<rparr>,
           \<lparr> pos = \<lparr>px = 750, py = 560\<rparr>, destroyed = True, ammo = 2, maxAmmo = 10 \<rparr> ],
       explosions :=
         [\<lparr> pos = \<lparr>px = 750, py = 560\<rparr>, id_tag = 0, radius = 3 / 2, maxRadius = 40,
            growing = True, finished = False \<rparr>] \<rparr>"

section \<open>Basic facts\<close>

lemmas [game_consts] =
  CANVAS_WIDTH_def CANVAS_HEIGHT_def EXPLOSION_MAX_RADIUS_def EXPLOSION_GROWTH_SPEED_def
  MISSILE_SPEED_def ROCKET_SPEED_BASE_def ROCKET_SPEED_INC_def WIN_SCORE_def TURRET_AMMO_def

subsection \<open>Random draws\<close>

text \<open>
  Every draw is in \<open>[0, 1)\<close>, so the index \<^verbatim>\<open>Math.floor(Math.random() * targets.length)\<close>
  is an index of the array whenever the array is not empty: \<^verbatim>\<open>spawnRocket\<close> never reads
  past the end of \<^verbatim>\<open>targets\<close>.
\<close>

lemma Math_random_range:
  "0 \<le> fst (Math_random s) \<and> fst (Math_random s) < 1"
  by (simp add: Math_random_def frac_lt_1)

lemma spawn_index_in_range:
  assumes "targets \<noteq> []"
  shows "nat \<lfloor>fst (Math_random s) * real (length targets)\<rfloor> < length targets"
proof -
  let ?r = "fst (Math_random s)" and ?n = "length targets"
  from assms have n: "0 < real ?n" by simp
  have r: "0 \<le> ?r" "?r < 1" using Math_random_range [of s] by simp_all
  from r(2) n have "?r * real ?n < real ?n" by simp
  then have "\<lfloor>?r * real ?n\<rfloor> < int ?n" by (simp add: floor_less_iff)
  moreover from r(1) have "0 \<le> \<lfloor>?r * real ?n\<rfloor>" by simp
  ultimately show ?thesis by linarith
qed

subsection \<open>The round transition\<close>

lemma refill_turrets_eq:
  "refill_turrets ts b = (map refilled ts, b + ammo_bonus ts)"
  by (induction ts arbitrary: b) (simp_all add: refilled_def ammo_bonus_def)

lemma nextRound_eq:
  "nextRound s =
     s\<lparr> turrets := map refilled (turrets s),
        score := score s + ammo_bonus (turrets s),
        round_no := round_no s + 1,
        rocketsToSpawn := 3 + (round_no s + 1),
        status := PLAYING \<rparr>"
  by (simp add: nextRound_def refill_turrets_eq)

text \<open>
  C6. The round transition adds to the score 5 points for every round of ammo left in a
  turret that is not destroyed, refills each such turret to its maximum and leaves the
  destroyed ones alone, adds 1 to the round, sets the rockets to spawn to 3 plus the new
  round, and sets the status to PLAYING; nothing else changes.
\<close>

theorem nextRound_effect:
  "score (nextRound s)
     = score s + sum_list (map (\<lambda>t. ammo t * 5) (filter (\<lambda>t. \<not> destroyed t) (turrets s)))
   \<and> turrets (nextRound s)
     = map (\<lambda>t. if destroyed t then t else t\<lparr>ammo := maxAmmo t\<rparr>) (turrets s)
   \<and> round_no (nextRound s) = round_no s + 1
   \<and> rocketsToSpawn (nextRound s) = 3 + round_no (nextRound s)
   \<and> status (nextRound s) = PLAYING
   \<and> rockets (nextRound s) = rockets s
   \<and> missiles (nextRound s) = missiles s
   \<and> explosions (nextRound s) = explosions s
   \<and> cities (nextRound s) = cities s"
proof -
  have "map refilled (turrets s)
      = map (\<lambda>t. if destroyed t then t else t\<lparr>ammo := maxAmmo t\<rparr>) (turrets s)"
    by (simp add: refilled_def)
  then show ?thesis
    by (simp add: nextRound_eq ammo_bonus_def)
qed

text \<open>The scenario of the specification: 3 and 7 rounds left give 50 points.\<close>

theorem nextRound_effect_witness:
  "status round_over = ROUND_END
   \<and> score (nextRound round_over) = score round_over + 50
   \<and> map ammo (turrets (nextRound round_over)) = [10, 20, 4]
   \<and> round_no (nextRound round_over) = 2
   \<and> rocketsToSpawn (nextRound round_over) = 5
   \<and> status (nextRound round_over) = PLAYING"
  using nextRound_effect [of round_over]
  by (simp add: round_over_def fresh_game_def initGame_def)

text \<open>
  C9. The round transition never reads the status: whatever the status is, LOST and WON
  included, the call gives the bonus, refills the surviving turrets, advances the round
  and sets the status to PLAYING, so a finished game runs again after it.
\<close>

theorem nextRound_ignores_status:
  "nextRound (s\<lparr>status := st\<rparr>) = nextRound s
   \<and> status (nextRound (s\<lparr>status := st\<rparr>)) = PLAYING
   \<and> score (nextRound (s\<lparr>status := st\<rparr>)) = score s + ammo_bonus (turrets s)
   \<and> turrets (nextRound (s\<lparr>status := st\<rparr>)) = map refilled (turrets s)
   \<and> round_no (nextRound (s\<lparr>status := st\<rparr>)) = round_no s + 1"
  by (simp add: nextRound_eq)

theorem nextRound_ignores_status_witness:
  "status (nextRound (round_over\<lparr>status := LOST\<rparr>)) = PLAYING
   \<and> score (nextRound (round_over\<lparr>status := LOST\<rparr>)) = 170
   \<and> round_no (nextRound (round_over\<lparr>status := WON\<rparr>)) = 2
   \<and> status (nextRound (round_over\<lparr>status := WON\<rparr>)) = PLAYING"
proof -
  have vals: "score round_over = 120" "ammo_bonus (turrets round_over) = 50"
    "round_no round_over = 1"
    by (simp_all add: round_over_def fresh_game_def initGame_def ammo_bonus_def)
  show ?thesis
    using nextRound_ignores_status [where s = round_over and st = LOST, THEN conjunct2]
      nextRound_ignores_status [where s = round_over and st = WON, THEN conjunct2]
    by (simp add: vals)
qed

subsection \<open>Loops and frames\<close>

lemma forEach_from_preserves:
  assumes step: "\<And>k s. P s \<Longrightarrow> k < len s \<Longrightarrow> P (body k s)"
  shows "P s \<Longrightarrow> P (forEach_from len body n k s)"
proof (induction n arbitrary: k s)
  case 0
  then show ?case by simp
next
  case (Suc n)
  then show ?case by (simp add: step)
qed

lemma forEach_preserves:
  assumes "\<And>k s. P s \<Longrightarrow> k < len s \<Longrightarrow> P (body k s)" and "P s"
  shows "P (forEach len body s)"
  unfolding forEach_def using assms by (rule forEach_from_preserves)

lemma forEach_field:
  assumes "\<And>k s. k < len s \<Longrightarrow> f (body k s) = f s"
  shows "f (forEach len body s) = f s"
  by (rule forEach_preserves [where P = "\<lambda>s'. f s' = f s"]) (simp_all add: assms)

lemma set_splice1: "set (splice1 i xs) \<subseteq> set xs"
  unfolding splice1_def by (auto dest: in_set_takeD in_set_dropD)

lemma splice1_update [simp]: "splice1 i (xs[i := v]) = splice1 i xs"
  by (simp add: splice1_def)

lemma length_splice1: "i < length xs \<Longrightarrow> length (splice1 i xs) = length xs - 1"
  by (simp add: splice1_def)

lemma push_explosion_fields [simp]:
  "score (push_explosion p mr s) = score s"
  "status (push_explosion p mr s) = status s"
  "rockets (push_explosion p mr s) = rockets s"
  "missiles (push_explosion p mr s) = missiles s"
  "turrets (push_explosion p mr s) = turrets s"
  "cities (push_explosion p mr s) = cities s"
  "round_no (push_explosion p mr s) = round_no s"
  "rocketsToSpawn (push_explosion p mr s) = rocketsToSpawn s"
  "explosions (push_explosion p mr s) = explosions s @
     [\<lparr> pos = p, id_tag = frac (rnd s 0), radius = 0, maxRadius = mr, growing = True, finished = False \<rparr>]"
  by (simp_all add: push_explosion_def Math_random_def)

lemma rocket_body_fields [simp]:
  "score (rocket_body k s) = score s"
  "status (rocket_body k s) = status s"
  "missiles (rocket_body k s) = missiles s"
  "round_no (rocket_body k s) = round_no s"
  "rocketsToSpawn (rocket_body k s) = rocketsToSpawn s"
  by (simp_all add: rocket_body_def Let_def)

lemma missile_body_fields [simp]:
  "score (missile_body k s) = score s"
  "status (missile_body k s) = status s"
  "rockets (missile_body k s) = rockets s"
  "turrets (missile_body k s) = turrets s"
  "cities (missile_body k s) = cities s"
  "round_no (missile_body k s) = round_no s"
  "rocketsToSpawn (missile_body k s) = rocketsToSpawn s"
  by (simp_all add: missile_body_def Let_def)

lemma collide_body_fields [simp]:
  "status (collide_body e k s) = status s"
  "missiles (collide_body e k s) = missiles s"
  "turrets (collide_body e k s) = turrets s"
  "cities (collide_body e k s) = cities s"
  "round_no (collide_body e k s) = round_no s"
  "rocketsToSpawn (collide_body e k s) = rocketsToSpawn s"
  by (simp_all add: collide_body_def Let_def)

lemma explosion_body_fields [simp]:
  "status (explosion_body k s) = status s"
  "missiles (explosion_body k s) = missiles s"
  "turrets (explosion_body k s) = turrets s"
  "cities (explosion_body k s) = cities s"
  "round_no (explosion_body k s) = round_no s"
  "rocketsToSpawn (explosion_body k s) = rocketsToSpawn s"
  by (simp_all add: explosion_body_def Let_def forEach_field)

subsection \<open>The search for the closest turret\<close>

lemma below_trans: "d' < d \<Longrightarrow> below d m \<Longrightarrow> below d' m"
  by (auto simp: below_def split: option.splits)

lemma not_below_le: "\<not> below d m \<Longrightarrow> below d' m \<Longrightarrow> d' < d"
  by (auto simp: below_def split: option.splits)

lemma closest_turret_spec:
  "(closest_turret x ts i b m = b \<and> (\<forall>t\<in>set ts. eligible t \<longrightarrow> \<not> below \<bar>px (pos t) - x\<bar> m))
   \<or> (\<exists>j<length ts. closest_turret x ts i b m = int (i + j) \<and> eligible (ts ! j)
         \<and> below \<bar>px (pos (ts ! j)) - x\<bar> m
         \<and> (\<forall>k<length ts. eligible (ts ! k) \<longrightarrow> \<bar>px (pos (ts ! j)) - x\<bar> \<le> \<bar>px (pos (ts ! k)) - x\<bar>)
         \<and> (\<forall>k<j. eligible (ts ! k) \<longrightarrow> \<bar>px (pos (ts ! j)) - x\<bar> < \<bar>px (pos (ts ! k)) - x\<bar>))"
proof (induction ts arbitrary: i b m)
  case Nil
  then show ?case by simp
next
  case (Cons t ts)
  let ?d = "\<lambda>u. \<bar>px (pos u) - x\<bar>"
  show ?case
  proof (cases "eligible t \<and> below (?d t) m")
    case True
    then have step: "closest_turret x (t # ts) i b m = closest_turret x ts (Suc i) (int i) (Some (?d t))"
      by (simp add: eligible_def below_def)
    from Cons.IH [of "Suc i" "int i" "Some (?d t)"]
    show ?thesis
    proof (elim disjE conjE exE)
      assume r: "closest_turret x ts (Suc i) (int i) (Some (?d t)) = int i"
        and rest: "\<forall>u\<in>set ts. eligible u \<longrightarrow> \<not> below (?d u) (Some (?d t))"
      have "\<forall>k<length (t # ts). eligible ((t # ts) ! k) \<longrightarrow> ?d t \<le> ?d ((t # ts) ! k)"
        using rest by (auto simp: nth_Cons' below_def)
      with r step True show ?thesis
        by (intro disjI2 exI [of _ 0]) simp
    next
      fix j
      assume j: "j < length ts"
        and r: "closest_turret x ts (Suc i) (int i) (Some (?d t)) = int (Suc i + j)"
        and e: "eligible (ts ! j)" and b: "below (?d (ts ! j)) (Some (?d t))"
        and all: "\<forall>k<length ts. eligible (ts ! k) \<longrightarrow> ?d (ts ! j) \<le> ?d (ts ! k)"
        and first: "\<forall>k<j. eligible (ts ! k) \<longrightarrow> ?d (ts ! j) < ?d (ts ! k)"
      have lt: "?d (ts ! j) < ?d t" using b by (simp add: below_def)
      have 1: "\<forall>k<length (t # ts). eligible ((t # ts) ! k) \<longrightarrow> ?d (ts ! j) \<le> ?d ((t # ts) ! k)"
        using all lt by (auto simp: nth_Cons')
      have 2: "\<forall>k<Suc j. eligible ((t # ts) ! k) \<longrightarrow> ?d (ts ! j) < ?d ((t # ts) ! k)"
        using first lt by (auto simp: nth_Cons')
      have 3: "below (?d (ts ! j)) m" using lt True by (blast intro: below_trans)
      show ?thesis
        using j r e 1 2 3 step by (intro disjI2 exI [of _ "Suc j"]) simp
    qed
  next
    case False
    then have step: "closest_turret x (t # ts) i b m = closest_turret x ts (Suc i) b m"
      by (auto simp add: eligible_def below_def split: option.splits)
    from Cons.IH [of "Suc i" b m]
    show ?thesis
    proof (elim disjE conjE exE)
      assume "closest_turret x ts (Suc i) b m = b"
        and "\<forall>u\<in>set ts. eligible u \<longrightarrow> \<not> below (?d u) m"
      with step False show ?thesis by auto
    next
      fix j
      assume j: "j < length ts"
        and r: "closest_turret x ts (Suc i) b m = int (Suc i + j)"
        and e: "eligible (ts ! j)" and b: "below (?d (ts ! j)) m"
        and all: "\<forall>k<length ts. eligible (ts ! k) \<longrightarrow> ?d (ts ! j) \<le> ?d (ts ! k)"
        and first: "\<forall>k<j. eligible (ts ! k) \<longrightarrow> ?d (ts ! j) < ?d (ts ! k)"
      have lt: "eligible t \<Longrightarrow> ?d (ts ! j) < ?d t"
        using False b by (blast intro: not_below_le)
      have 1: "\<forall>k<length (t # ts). eligible ((t # ts) ! k) \<longrightarrow> ?d (ts ! j) \<le> ?d ((t # ts) ! k)"
        using all lt by (auto simp: nth_Cons' dest: less_imp_le)
      have 2: "\<forall>k<Suc j. eligible ((t # ts) ! k) \<longrightarrow> ?d (ts ! j) < ?d ((t # ts) ! k)"
        using first lt by (auto simp: nth_Cons')
      show ?thesis
        using j r e b 1 2 step by (intro disjI2 exI [of _ "Suc j"]) simp
    qed
  qed
qed

lemma closest_turret_cases:
  "(closest_turret x ts 0 (- 1) None = - 1 \<and> (\<forall>t\<in>set ts. \<not> eligible t))
   \<or> (\<exists>j. closest_turret x ts 0 (- 1) None = int j \<and> nearest_eligible x ts j)"
  using closest_turret_spec [of x ts 0 "- 1" None]
  by (auto simp: below_def nearest_eligible_def)

lemma nearest_eligible_unique:
  assumes "nearest_eligible x ts i" and "nearest_eligible x ts j"
  shows "i = j"
proof (rule ccontr)
  assume "i \<noteq> j"
  then consider "i < j" | "j < i" by linarith
  then show False
  proof cases
    case 1
    with assms show ?thesis unfolding nearest_eligible_def by fastforce
  next
    case 2
    with assms show ?thesis unfolding nearest_eligible_def by fastforce
  qed
qed

lemma closest_turret_nearest:
  assumes "nearest_eligible x ts i"
  shows "closest_turret x ts 0 (- 1) None = int i"
proof -
  from assms have "\<exists>t\<in>set ts. eligible t"
    unfolding nearest_eligible_def using nth_mem by blast
  with closest_turret_cases [of x ts]
  obtain j where j: "closest_turret x ts 0 (- 1) None = int j" "nearest_eligible x ts j"
    by blast
  with assms show ?thesis by (simp add: nearest_eligible_unique)
qed

lemma closest_turret_none:
  assumes "\<forall>t\<in>set ts. \<not> eligible t"
  shows "closest_turret x ts 0 (- 1) None = - 1"
  using closest_turret_cases [of x ts] assms
  unfolding nearest_eligible_def using nth_mem by fastforce

lemma handleCanvasClick_fires:
  assumes "status s = PLAYING" and "nearest_eligible (px click) (turrets s) i"
  shows "handleCanvasClick click s =
     s\<lparr> turrets := (turrets s)[i := (turrets s ! i)\<lparr>ammo := ammo (turrets s ! i) - 1\<rparr>],
        missiles := missiles s @
          [\<lparr> pos = pos (turrets s ! i), id_tag = frac (rnd s 0), start = pos (turrets s ! i),
             target = click, progress = 0, speed = MISSILE_SPEED, sourceTurretIndex = int i \<rparr>],
        rnd := (\<lambda>n. rnd s (Suc n)) \<rparr>"
  using assms(1) closest_turret_nearest [OF assms(2)]
  by (simp add: handleCanvasClick_def Let_def Math_random_def)

lemma handleCanvasClick_idle:
  assumes "status s \<noteq> PLAYING \<or> (\<forall>t\<in>set (turrets s). \<not> eligible t)"
  shows "handleCanvasClick click s = s"
proof (cases "status s = PLAYING")
  case True
  with assms have "closest_turret (px click) (turrets s) 0 (- 1) None = - 1"
    by (simp add: closest_turret_none)
  with True show ?thesis by (simp add: handleCanvasClick_def)
next
  case False
  then show ?thesis by (simp add: handleCanvasClick_def)
qed

lemma some_nearest_eligible:
  assumes "\<exists>t\<in>set ts. eligible t"
  shows "\<exists>i. nearest_eligible x ts i"
  using closest_turret_cases [of x ts] assms by blast

text \<open>
  C5, as amended. While the status is PLAYING and some turret is not destroyed and has
  ammo, a click fires: the turret nearest to the click in \<open>x\<close> among those (the first
  of them in the array on a tie) loses one round of ammo, and one missile is appended
  that starts at that turret, aims at the click, has progress 0 and the fixed speed;
  nothing else changes but the entropy. When the status is not PLAYING, or no turret
  can fire, the call leaves the state as it is.
\<close>

theorem click_fires_from_nearest:
  "(status s = PLAYING \<and> (\<exists>t\<in>set (turrets s). \<not> destroyed t \<and> 0 < ammo t) \<longrightarrow>
      (\<exists>i. nearest_eligible (px click) (turrets s) i
         \<and> handleCanvasClick click s =
             s\<lparr> turrets := (turrets s)[i := (turrets s ! i)\<lparr>ammo := ammo (turrets s ! i) - 1\<rparr>],
                missiles := missiles s @
                  [\<lparr> pos = pos (turrets s ! i), id_tag = frac (rnd s 0),
                     start = pos (turrets s ! i), target = click, progress = 0,
                     speed = MISSILE_SPEED, sourceTurretIndex = int i \<rparr>],
                rnd := (\<lambda>n. rnd s (Suc n)) \<rparr>))
   \<and> (status s \<noteq> PLAYING \<or> (\<forall>t\<in>set (turrets s). destroyed t \<or> ammo t \<le> 0) \<longrightarrow>
        handleCanvasClick click s = s)"
proof (intro conjI impI)
  assume a: "status s = PLAYING \<and> (\<exists>t\<in>set (turrets s). \<not> destroyed t \<and> 0 < ammo t)"
  then have "\<exists>t\<in>set (turrets s). eligible t" by (simp add: eligible_def)
  then obtain i where "nearest_eligible (px click) (turrets s) i"
    using some_nearest_eligible by blast
  with a show "\<exists>i. nearest_eligible (px click) (turrets s) i
         \<and> handleCanvasClick click s =
             s\<lparr> turrets := (turrets s)[i := (turrets s ! i)\<lparr>ammo := ammo (turrets s ! i) - 1\<rparr>],
                missiles := missiles s @
                  [\<lparr> pos = pos (turrets s ! i), id_tag = frac (rnd s 0),
                     start = pos (turrets s ! i), target = click, progress = 0,
                     speed = MISSILE_SPEED, sourceTurretIndex = int i \<rparr>],
                rnd := (\<lambda>n. rnd s (Suc n)) \<rparr>"
    using handleCanvasClick_fires by blast
next
  assume "status s \<noteq> PLAYING \<or> (\<forall>t\<in>set (turrets s). destroyed t \<or> ammo t \<le> 0)"
  then have "status s \<noteq> PLAYING \<or> (\<forall>t\<in>set (turrets s). \<not> eligible t)"
    by (auto simp: eligible_def)
  then show "handleCanvasClick click s = s" by (rule handleCanvasClick_idle)
qed

lemma fresh_turrets: "turrets fresh_game =
   [ \<lparr> pos = \<lparr>px = 50, py = 560\<rparr>, destroyed = False, ammo = 10, maxAmmo = 10 \<rparr>,
     \<lparr> pos = \<lparr>px = 400, py = 560\<rparr>, destroyed = False, ammo = 20, maxAmmo = 20 \<rparr>,
     \<lparr> pos = \<lparr>px = 750, py = 560\<rparr>, destroyed = False, ammo = 10, maxAmmo = 10 \<rparr> ]"
  by (simp add: fresh_game_def initGame_def game_consts)

lemma nearest_fresh: "nearest_eligible (px aim) (turrets fresh_game) i \<Longrightarrow> i = 0"
  by (rule nearest_eligible_unique [where x = "px aim" and ts = "turrets fresh_game"])
     (simp_all add: nearest_eligible_def fresh_turrets eligible_def aim_def All_less_Suc numeral_3_eq_3)

theorem click_fires_from_nearest_witness:
  "status fresh_game = PLAYING
   \<and> map ammo (turrets (handleCanvasClick aim fresh_game)) = [9, 20, 10]
   \<and> map start (missiles (handleCanvasClick aim fresh_game)) = [\<lparr>px = 50, py = 560\<rparr>]
   \<and> map target (missiles (handleCanvasClick aim fresh_game)) = [aim]
   \<and> map sourceTurretIndex (missiles (handleCanvasClick aim fresh_game)) = [0]
   \<and> handleCanvasClick aim round_over = round_over"
proof -
  have st: "status fresh_game = PLAYING" "missiles fresh_game = []"
    by (simp_all add: fresh_game_def initGame_def)
  have el: "\<exists>t\<in>set (turrets fresh_game). \<not> destroyed t \<and> 0 < ammo t"
    by (simp add: fresh_turrets)
  have idle: "status round_over \<noteq> PLAYING" by (simp add: round_over_def)
  from click_fires_from_nearest [of fresh_game aim] st el
  obtain i where i: "nearest_eligible (px aim) (turrets fresh_game) i"
    and eq: "handleCanvasClick aim fresh_game =
       fresh_game\<lparr> turrets := (turrets fresh_game)[i := (turrets fresh_game ! i)\<lparr>ammo := ammo (turrets fresh_game ! i) - 1\<rparr>],
                missiles := missiles fresh_game @
                  [\<lparr> pos = pos (turrets fresh_game ! i), id_tag = frac (rnd fresh_game 0),
                     start = pos (turrets fresh_game ! i), target = aim, progress = 0,
                     speed = MISSILE_SPEED, sourceTurretIndex = int i \<rparr>],
                rnd := (\<lambda>n. rnd fresh_game (Suc n)) \<rparr>"
    by blast
  from i have "i = 0" by (rule nearest_fresh)
  with eq st have "map ammo (turrets (handleCanvasClick aim fresh_game)) = [9, 20, 10]"
    "map start (missiles (handleCanvasClick aim fresh_game)) = [\<lparr>px = 50, py = 560\<rparr>]"
    "map target (missiles (handleCanvasClick aim fresh_game)) = [aim]"
    "map sourceTurretIndex (missiles (handleCanvasClick aim fresh_game)) = [0]"
    by (simp_all add: fresh_turrets)
  moreover have "handleCanvasClick aim round_over = round_over"
    using click_fires_from_nearest [of round_over aim] idle by blast
  ultimately show ?thesis using st by simp
qed

text \<open>
  C5 as stated fails: at the end of a round two turrets can fire, yet the click is
  dropped, because the handler returns at once unless the status is PLAYING.
\<close>

theorem click_dropped_outside_play:
  "\<not> destroyed (turrets round_over ! 0) \<and> 0 < ammo (turrets round_over ! 0)
   \<and> status round_over = ROUND_END
   \<and> handleCanvasClick aim round_over = round_over"
  by (simp add: round_over_def handleCanvasClick_def)

subsection \<open>Frames of the phases of update\<close>

lemma hit_turret_ammo[simp]:
  "ammo (hit_turret tg t) = ammo t" "maxAmmo (hit_turret tg t) = maxAmmo t"
  by (simp_all add: hit_turret_def)

lemma rocket_body_ammo:
  "map ammo (turrets (rocket_body k s)) = map ammo (turrets s)"
  "map maxAmmo (turrets (rocket_body k s)) = map maxAmmo (turrets s)"
  by (simp_all add: rocket_body_def Let_def o_def)

lemma spawnRocket_guard: "status s \<noteq> PLAYING \<or> rocketsToSpawn s \<le> 0 \<Longrightarrow> spawnRocket s = s"
  by (simp add: spawnRocket_def)

lemma spawnRocket_fields [simp]:
  "score (spawnRocket s) = score s"
  "status (spawnRocket s) = status s"
  "missiles (spawnRocket s) = missiles s"
  "explosions (spawnRocket s) = explosions s"
  "turrets (spawnRocket s) = turrets s"
  "cities (spawnRocket s) = cities s"
  "round_no (spawnRocket s) = round_no s"
  by (simp_all add: spawnRocket_def Math_random_def Let_def)

lemma check_outcome_fields [simp]:
  "score (check_outcome s) = score s"
  "missiles (check_outcome s) = missiles s"
  "explosions (check_outcome s) = explosions s"
  "turrets (check_outcome s) = turrets s"
  "cities (check_outcome s) = cities s"
  "round_no (check_outcome s) = round_no s"
  by (simp_all add: check_outcome_def Math_random_def Let_def)

lemma update_rockets_fields [simp]:
  "score (update_rockets s) = score s"
  "status (update_rockets s) = status s"
  "missiles (update_rockets s) = missiles s"
  "round_no (update_rockets s) = round_no s"
  "rocketsToSpawn (update_rockets s) = rocketsToSpawn s"
  "map ammo (turrets (update_rockets s)) = map ammo (turrets s)"
  "map maxAmmo (turrets (update_rockets s)) = map maxAmmo (turrets s)"
  unfolding update_rockets_def
  by (rule forEach_field, simp add: rocket_body_ammo)+

lemma update_missiles_fields [simp]:
  "score (update_missiles s) = score s"
  "status (update_missiles s) = status s"
  "rockets (update_missiles s) = rockets s"
  "turrets (update_missiles s) = turrets s"
  "cities (update_missiles s) = cities s"
  "round_no (update_missiles s) = round_no s"
  "rocketsToSpawn (update_missiles s) = rocketsToSpawn s"
  unfolding update_missiles_def
  by (rule forEach_field, simp)+

lemma update_explosions_fields [simp]:
  "status (update_explosions s) = status s"
  "missiles (update_explosions s) = missiles s"
  "turrets (update_explosions s) = turrets s"
  "cities (update_explosions s) = cities s"
  "round_no (update_explosions s) = round_no s"
  "rocketsToSpawn (update_explosions s) = rocketsToSpawn s"
  unfolding update_explosions_def
  by (rule forEach_field, simp)+

lemma update_empty_lists:
  "rockets s = [] \<Longrightarrow> update_rockets s = s"
  "missiles s = [] \<Longrightarrow> update_missiles s = s"
  by (simp_all add: update_rockets_def update_missiles_def forEach_def)

lemma update_ammo:
  "map ammo (turrets (update s)) = map ammo (turrets s)"
  "map maxAmmo (turrets (update s)) = map maxAmmo (turrets s)"
  by (simp_all add: update_def)

subsection \<open>The ammo of the turrets\<close>

lemma ammo_ok_cong:
  assumes "map ammo ts' = map ammo ts" and "map maxAmmo ts' = map maxAmmo ts"
    and "\<forall>t\<in>set ts. ammo_ok t"
  shows "\<forall>t\<in>set ts'. ammo_ok t"
proof
  fix t assume "t \<in> set ts'"
  then obtain i where i: "i < length ts'" "ts' ! i = t" by (auto simp: in_set_conv_nth)
  from assms(1) have len: "length ts' = length ts" by (rule map_eq_imp_length_eq)
  from assms(1) i len have "ammo t = ammo (ts ! i)" by (metis nth_map)
  moreover from assms(2) i len have "maxAmmo t = maxAmmo (ts ! i)" by (metis nth_map)
  moreover from assms(3) i len have "ammo_ok (ts ! i)" by simp
  ultimately show "ammo_ok t" by (simp add: ammo_ok_def)
qed

lemma ammo_ok_refilled: "ammo_ok t \<Longrightarrow> ammo_ok (refilled t)"
  by (simp add: ammo_ok_def refilled_def)

lemma handleCanvasClick_shape:
  "handleCanvasClick click s = s
   \<or> (\<exists>i. status s = PLAYING \<and> nearest_eligible (px click) (turrets s) i
        \<and> handleCanvasClick click s =
             s\<lparr> turrets := (turrets s)[i := (turrets s ! i)\<lparr>ammo := ammo (turrets s ! i) - 1\<rparr>],
                missiles := missiles s @
                  [\<lparr> pos = pos (turrets s ! i), id_tag = frac (rnd s 0),
                     start = pos (turrets s ! i), target = click, progress = 0,
                     speed = MISSILE_SPEED, sourceTurretIndex = int i \<rparr>],
                rnd := (\<lambda>n. rnd s (Suc n)) \<rparr>)"
proof (cases "status s = PLAYING \<and> (\<exists>t\<in>set (turrets s). eligible t)")
  case True
  then obtain i where "nearest_eligible (px click) (turrets s) i"
    using some_nearest_eligible by blast
  with True show ?thesis using handleCanvasClick_fires by blast
next
  case False
  then show ?thesis using handleCanvasClick_idle by blast
qed

lemma handleCanvasClick_ammo_ok:
  assumes "\<forall>t\<in>set (turrets s). ammo_ok t"
  shows "\<forall>t\<in>set (turrets (handleCanvasClick click s)). ammo_ok t"
  using handleCanvasClick_shape [of click s]
proof (elim disjE exE conjE)
  assume "handleCanvasClick click s = s"
  with assms show ?thesis by simp
next
  fix i
  let ?t = "turrets s ! i"
  assume ne: "nearest_eligible (px click) (turrets s) i"
    and eq: "handleCanvasClick click s =
             s\<lparr> turrets := (turrets s)[i := ?t\<lparr>ammo := ammo ?t - 1\<rparr>],
                missiles := missiles s @
                  [\<lparr> pos = pos ?t, id_tag = frac (rnd s 0),
                     start = pos ?t, target = click, progress = 0,
                     speed = MISSILE_SPEED, sourceTurretIndex = int i \<rparr>],
                rnd := (\<lambda>n. rnd s (Suc n)) \<rparr>"
  from ne have i: "i < length (turrets s)" and el: "eligible ?t"
    by (simp_all add: nearest_eligible_def)
  from i assms have "ammo_ok ?t" by simp
  with el have new: "ammo_ok (?t\<lparr>ammo := ammo ?t - 1\<rparr>)"
    by (simp add: ammo_ok_def eligible_def)
  have "set ((turrets s)[i := ?t\<lparr>ammo := ammo ?t - 1\<rparr>])
        \<subseteq> insert (?t\<lparr>ammo := ammo ?t - 1\<rparr>) (set (turrets s))"
    by (rule set_update_subset_insert)
  with new assms show ?thesis unfolding eq by auto
qed

lemma reachable_ammo_ok: "reachable s \<Longrightarrow> \<forall>t\<in>set (turrets s). ammo_ok t"
proof (induction rule: reachable.induct)
  case (boot g)
  show ?case by (simp add: initial_ref_def)
next
  case (init s)
  show ?case by (simp add: initGame_def ammo_ok_def game_consts)
next
  case (frame s)
  from update_ammo frame.IH show ?case by (rule ammo_ok_cong)
next
  case (click s p)
  from click.IH show ?case by (rule handleCanvasClick_ammo_ok)
next
  case (round s)
  from round.IH show ?case by (simp add: nextRound_eq ammo_ok_refilled)
qed

subsection \<open>The score\<close>

lemma collide_body_tally:
  "k < length (rockets s) \<Longrightarrow>
   score (collide_body e k s) + 20 * int (length (rockets (collide_body e k s)))
     = score s + 20 * int (length (rockets s))"
  by (simp add: collide_body_def Let_def length_splice1)

lemma explosion_body_tally:
  "score (explosion_body k s) + 20 * int (length (rockets (explosion_body k s)))
     = score s + 20 * int (length (rockets s))"
proof -
  let ?Q = "\<lambda>s::GameState. score s + 20 * int (length (rockets s))"
  have "?Q (forEach (\<lambda>s. length (rockets s)) (collide_body e) s') = ?Q s'" for e s'
    by (rule forEach_field [where f = ?Q]) (rule collide_body_tally)
  then show ?thesis
    by (simp add: explosion_body_def Let_def)
qed

lemma update_explosions_tally:
  "score (update_explosions s) + 20 * int (length (rockets (update_explosions s)))
     = score s + 20 * int (length (rockets s))"
  unfolding update_explosions_def
  by (rule forEach_field [where f = "\<lambda>s. score s + 20 * int (length (rockets s))"])
     (rule explosion_body_tally)

lemma collide_body_length:
  "k < length (rockets s) \<Longrightarrow> length (rockets (collide_body e k s)) \<le> length (rockets s)"
  by (simp add: collide_body_def Let_def length_splice1)

lemma update_explosions_length:
  "length (rockets (update_explosions s)) \<le> length (rockets s)"
proof -
  have inner: "length (rockets (forEach (\<lambda>s. length (rockets s)) (collide_body e) s'))
                 \<le> length (rockets s')" for e s'
    by (rule forEach_preserves [where P = "\<lambda>u. length (rockets u) \<le> length (rockets s')"])
       (use collide_body_length le_trans in blast, simp)
  have body: "length (rockets (explosion_body k s')) \<le> length (rockets s')" for k s'
    using inner [of "explosion_tick (explosions s' ! k)"
                    "s'\<lparr>explosions := (explosions s')[k := explosion_tick (explosions s' ! k)]\<rparr>"]
    by (simp add: explosion_body_def Let_def)
  show ?thesis
    unfolding update_explosions_def
    by (rule forEach_preserves [where P = "\<lambda>u. length (rockets u) \<le> length (rockets s)"])
       (use body le_trans in blast, simp)
qed

lemma update_score: "score (update s) = score s + 20 * int (kills s)"
proof (cases "status s = PLAYING")
  case True
  let ?m = "update_missiles (update_rockets s)"
  have "score (update s) = score (update_explosions ?m)"
    using True by (simp add: update_def)
  moreover have "score ?m = score s" by simp
  moreover note update_explosions_tally [of ?m] update_explosions_length [of ?m]
  ultimately show ?thesis using True by (simp add: kills_def Let_def)
next
  case False
  then show ?thesis by (simp add: update_def kills_def)
qed

lemma handleCanvasClick_score: "score (handleCanvasClick click s) = score s"
  using handleCanvasClick_shape [of click s] by auto

lemma ammo_bonus_nonneg:
  "\<forall>t\<in>set ts. ammo_ok t \<Longrightarrow> 0 \<le> ammo_bonus ts"
  unfolding ammo_bonus_def
  by (induction ts) (simp_all add: ammo_ok_def)

text \<open>
  C10. In every state the entry points can produce after \<^verbatim>\<open>initGame\<close>, every turret
  has \<open>0 \<le> ammo \<le> maxAmmo\<close>. A frame changes neither the ammo nor the maximum of any
  turret; a click changes nothing of the turrets or takes one round from a turret that
  has one; the round transition sets the ammo of every surviving turret to its maximum.
\<close>

theorem ammo_within_bounds:
  assumes "reachable s"
  shows "(\<forall>t\<in>set (turrets s). 0 \<le> ammo t \<and> ammo t \<le> maxAmmo t)
   \<and> map ammo (turrets (update s)) = map ammo (turrets s)
   \<and> map maxAmmo (turrets (update s)) = map maxAmmo (turrets s)
   \<and> (turrets (handleCanvasClick click s) = turrets s
      \<or> (\<exists>i<length (turrets s). 0 < ammo (turrets s ! i)
            \<and> turrets (handleCanvasClick click s)
                = (turrets s)[i := (turrets s ! i)\<lparr>ammo := ammo (turrets s ! i) - 1\<rparr>]))
   \<and> turrets (nextRound s)
       = map (\<lambda>t. if destroyed t then t else t\<lparr>ammo := maxAmmo t\<rparr>) (turrets s)"
proof -
  have "\<forall>t\<in>set (turrets s). 0 \<le> ammo t \<and> ammo t \<le> maxAmmo t"
    using reachable_ammo_ok [OF assms] by (simp add: ammo_ok_def)
  moreover have "turrets (handleCanvasClick click s) = turrets s
      \<or> (\<exists>i<length (turrets s). 0 < ammo (turrets s ! i)
            \<and> turrets (handleCanvasClick click s)
                = (turrets s)[i := (turrets s ! i)\<lparr>ammo := ammo (turrets s ! i) - 1\<rparr>])"
    using handleCanvasClick_shape [of click s]
  proof (elim disjE exE conjE)
    assume "handleCanvasClick click s = s"
    then show ?thesis by simp
  next
    fix i
    assume ne: "nearest_eligible (px click) (turrets s) i"
      and eq: "handleCanvasClick click s =
             s\<lparr> turrets := (turrets s)[i := (turrets s ! i)\<lparr>ammo := ammo (turrets s ! i) - 1\<rparr>],
                missiles := missiles s @
                  [\<lparr> pos = pos (turrets s ! i), id_tag = frac (rnd s 0),
                     start = pos (turrets s ! i), target = click, progress = 0,
                     speed = MISSILE_SPEED, sourceTurretIndex = int i \<rparr>],
                rnd := (\<lambda>n. rnd s (Suc n)) \<rparr>"
    from ne have "i < length (turrets s)" "0 < ammo (turrets s ! i)"
      by (simp_all add: nearest_eligible_def eligible_def)
    then show ?thesis unfolding eq by auto
  qed
  moreover have "turrets (nextRound s)
       = map (\<lambda>t. if destroyed t then t else t\<lparr>ammo := maxAmmo t\<rparr>) (turrets s)"
    by (simp add: nextRound_eq refilled_def)
  ultimately show ?thesis by (simp add: update_ammo)
qed

lemma nearest_fresh_0: "nearest_eligible (px aim) (turrets fresh_game) 0"
  by (simp add: nearest_eligible_def fresh_turrets eligible_def aim_def All_less_Suc numeral_3_eq_3)

lemma after_shot_eq:
  "after_shot =
     fresh_game\<lparr> turrets :=
         [ \<lparr> pos = \<lparr>px = 50, py = 560\<rparr>, destroyed = False, ammo = 9, maxAmmo = 10 \<rparr>,
           \<lparr> pos = \<lparr>px = 400, py = 560\<rparr>, destroyed = False, ammo = 20, maxAmmo = 20 \<rparr>,
           \<lparr> pos = \<lparr>px = 750, py = 560\<rparr>, destroyed = False, ammo = 10, maxAmmo = 10 \<rparr> ],
       missiles :=
         [\<lparr> pos = \<lparr>px = 50, py = 560\<rparr>, id_tag = 0, start = \<lparr>px = 50, py = 560\<rparr>,
            target = aim, progress = 0, speed = MISSILE_SPEED, sourceTurretIndex = 0 \<rparr>],
       rnd := (\<lambda>n. 0) \<rparr>"
proof -
  have st: "status fresh_game = PLAYING" "missiles fresh_game = []" "rnd fresh_game = (\<lambda>n. 0)"
    by (simp_all add: fresh_game_def initGame_def initial_ref_def)
  show ?thesis
    unfolding after_shot_def
    by (simp add: handleCanvasClick_fires [OF st(1) nearest_fresh_0] fresh_turrets st)
qed

lemma reachable_after_shot: "reachable after_shot"
  unfolding after_shot_def fresh_game_def by (intro reachable.intros)

lemma reachable_fresh_game: "reachable fresh_game"
  unfolding fresh_game_def by (rule reachable.init)

theorem ammo_within_bounds_witness:
  "list_all (\<lambda>t. 0 \<le> ammo t \<and> ammo t \<le> maxAmmo t) (turrets after_shot)
   \<and> map ammo (turrets after_shot) = [9, 20, 10]
   \<and> map ammo (turrets (update after_shot)) = [9, 20, 10]
   \<and> map ammo (turrets (nextRound after_shot)) = [10, 20, 10]"
proof -
  have ts: "map ammo (turrets after_shot) = [9, 20, 10]"
    "map maxAmmo (turrets after_shot) = [10, 20, 10]"
    "map destroyed (turrets after_shot) = [False, False, False]"
    by (simp_all add: after_shot_eq)
  note w = ammo_within_bounds [OF reachable_after_shot, where click = aim]
  from w have "list_all (\<lambda>t. 0 \<le> ammo t \<and> ammo t \<le> maxAmmo t) (turrets after_shot)"
    by (simp add: list_all_iff)
  moreover from w have "map ammo (turrets (update after_shot)) = [9, 20, 10]"
    by (simp add: ts)
  moreover from w have "map ammo (turrets (nextRound after_shot)) = [10, 20, 10]"
    by (simp add: after_shot_eq)
  ultimately show ?thesis by (simp add: ts)
qed

text \<open>
  C8. From an observable state, no call of \<^verbatim>\<open>update\<close>, of the click handler or of the round
  transition lowers the score: a frame adds 20 for each rocket destroyed in the air, a
  click adds nothing, and the round transition adds the ammo bonus, which is not
  negative.
\<close>

theorem score_never_decreases:
  assumes "reachable s"
  shows "(\<forall>s'. engine_step s s' \<longrightarrow> score s \<le> score s')
   \<and> score (update s) = score s + 20 * int (kills s)
   \<and> score (handleCanvasClick click s) = score s
   \<and> score (nextRound s)
       = score s + sum_list (map (\<lambda>t. ammo t * 5) (filter (\<lambda>t. \<not> destroyed t) (turrets s)))
   \<and> 0 \<le> sum_list (map (\<lambda>t. ammo t * 5) (filter (\<lambda>t. \<not> destroyed t) (turrets s)))"
proof -
  have bonus: "0 \<le> ammo_bonus (turrets s)"
    using reachable_ammo_ok [OF assms] by (rule ammo_bonus_nonneg)
  have next_score: "score (nextRound s) = score s + ammo_bonus (turrets s)"
    by (simp add: nextRound_eq)
  have "score s \<le> score s'" if "engine_step s s'" for s'
    using that
  proof cases
    case by_frame
    then show ?thesis by (simp add: update_score)
  next
    case (by_click p)
    then show ?thesis by (simp add: handleCanvasClick_score)
  next
    case by_round
    then show ?thesis using bonus next_score by simp
  qed
  then show ?thesis
    using bonus next_score
    by (simp add: update_score handleCanvasClick_score ammo_bonus_def)
qed

theorem score_never_decreases_witness:
  "score after_shot = 0
   \<and> score (update after_shot) = 20 * int (kills after_shot)
   \<and> score (handleCanvasClick aim after_shot) = 0
   \<and> score (nextRound after_shot) = 195
   \<and> score after_shot \<le> score (nextRound after_shot)"
proof -
  have sc: "score after_shot = 0"
    by (simp add: after_shot_eq fresh_game_def initGame_def)
  note w = score_never_decreases [OF reachable_after_shot, where click = aim]
  have "engine_step after_shot (nextRound after_shot)" by (rule engine_step.by_round)
  with w have "score after_shot \<le> score (nextRound after_shot)" by blast
  moreover from w have "score (nextRound after_shot) = 195"
    by (simp add: after_shot_eq fresh_game_def initGame_def)
  ultimately show ?thesis using w by (simp add: sc)
qed

subsection \<open>The radius of an explosion\<close>

lemma explosion_tick_ok:
  "explosion_ok e \<Longrightarrow> \<not> finished (explosion_tick e) \<Longrightarrow> explosion_ok (explosion_tick e)"
  by (auto simp: explosion_ok_def explosion_tick_def Let_def game_consts split: if_splits)

lemma explosion_tick_maxRadius [simp]: "maxRadius (explosion_tick e) = maxRadius e"
  by (simp add: explosion_tick_def Let_def)

lemma push_explosion_ok:
  assumes "\<forall>e\<in>set (explosions s). explosion_ok e" and "0 < mr"
  shows "\<forall>e\<in>set (explosions (push_explosion p mr s)). explosion_ok e"
  using assms by (auto simp: explosion_ok_def game_consts)

lemma rocket_body_explosions_ok:
  assumes "\<forall>e\<in>set (explosions s). explosion_ok e"
  shows "\<forall>e\<in>set (explosions (rocket_body k s)). explosion_ok e"
proof -
  have "\<forall>e\<in>set (explosions (push_explosion p EXPLOSION_MAX_RADIUS
            (s\<lparr>rockets := rs\<rparr>))). explosion_ok e" for p rs
    by (rule push_explosion_ok) (simp_all add: assms game_consts)
  then show ?thesis using assms by (simp add: rocket_body_def Let_def)
qed

lemma missile_body_explosions_ok:
  assumes "\<forall>e\<in>set (explosions s). explosion_ok e"
  shows "\<forall>e\<in>set (explosions (missile_body k s)). explosion_ok e"
proof -
  have "\<forall>e\<in>set (explosions (push_explosion p EXPLOSION_MAX_RADIUS
            (s\<lparr>missiles := ms\<rparr>))). explosion_ok e" for p ms
    by (rule push_explosion_ok) (simp_all add: assms game_consts)
  then show ?thesis using assms by (simp add: missile_body_def Let_def)
qed

lemma collide_body_explosions_ok:
  assumes "\<forall>e\<in>set (explosions s). explosion_ok e"
  shows "\<forall>e\<in>set (explosions (collide_body ex k s)). explosion_ok e"
proof -
  have "\<forall>e\<in>set (explosions (push_explosion p (EXPLOSION_MAX_RADIUS / 2)
            (s\<lparr>score := sc\<rparr>))). explosion_ok e" for p sc
    by (rule push_explosion_ok) (simp_all add: assms game_consts)
  then show ?thesis using assms by (simp add: collide_body_def Let_def)
qed

lemma explosion_body_explosions_ok:
  assumes ok: "\<forall>e\<in>set (explosions s). explosion_ok e" and k: "k < length (explosions s)"
  shows "\<forall>e\<in>set (explosions (explosion_body k s)). explosion_ok e"
proof (cases "finished (explosion_tick (explosions s ! k))")
  case True
  then have "explosions (explosion_body k s) = splice1 k (explosions s)"
    by (simp add: explosion_body_def Let_def)
  with ok set_splice1 [of k "explosions s"] show ?thesis by auto
next
  case False
  let ?e = "explosion_tick (explosions s ! k)"
  let ?s1 = "s\<lparr>explosions := (explosions s)[k := ?e]\<rparr>"
  from ok k have "explosion_ok (explosions s ! k)" by simp
  with False have "explosion_ok ?e" by (rule explosion_tick_ok [rotated])
  moreover have "set ((explosions s)[k := ?e]) \<subseteq> insert ?e (set (explosions s))"
    by (rule set_update_subset_insert)
  ultimately have s1: "\<forall>e\<in>set (explosions ?s1). explosion_ok e"
    using ok by auto
  have "\<forall>e\<in>set (explosions (forEach (\<lambda>s. length (rockets s)) (collide_body ?e) ?s1)).
          explosion_ok e"
    by (rule forEach_preserves [where P = "\<lambda>u. \<forall>e\<in>set (explosions u). explosion_ok e"])
       (rule collide_body_explosions_ok, assumption, rule s1)
  with False show ?thesis by (simp add: explosion_body_def Let_def)
qed

lemma update_explosions_ok:
  assumes "\<forall>e\<in>set (explosions s). explosion_ok e"
  shows "\<forall>e\<in>set (explosions (update s)). explosion_ok e"
proof (cases "status s = PLAYING")
  case True
  let ?P = "\<lambda>u. \<forall>e\<in>set (explosions u). explosion_ok e"
  have "?P (update_rockets s)"
    unfolding update_rockets_def
    by (rule forEach_preserves [where P = ?P]) (rule rocket_body_explosions_ok, assumption, rule assms)
  then have "?P (update_missiles (update_rockets s))"
    unfolding update_missiles_def
    by (intro forEach_preserves [where P = ?P] missile_body_explosions_ok)
  then have "?P (update_explosions (update_missiles (update_rockets s)))"
    unfolding update_explosions_def
    by (intro forEach_preserves [where P = ?P] explosion_body_explosions_ok)
  with True show ?thesis by (simp add: update_def)
next
  case False
  with assms show ?thesis by (simp add: update_def)
qed

lemma handleCanvasClick_explosions [simp]:
  "explosions (handleCanvasClick click s) = explosions s"
  using handleCanvasClick_shape [of click s] by auto

lemma reachable_explosions_ok: "reachable s \<Longrightarrow> \<forall>e\<in>set (explosions s). explosion_ok e"
proof (induction rule: reachable.induct)
  case (boot g)
  show ?case by (simp add: initial_ref_def)
next
  case (init s)
  show ?case by (simp add: initGame_def)
next
  case (frame s)
  from frame.IH show ?case by (rule update_explosions_ok)
next
  case (click s p)
  from click.IH show ?case by simp
next
  case (round s)
  from round.IH show ?case by (simp add: nextRound_eq)
qed

text \<open>
  C3, as amended. In every state the entry points can produce after \<^verbatim>\<open>initGame\<close>, the
  radius of every explosion is at least 0 and less than its maximum plus one growth
  step: while an explosion grows its radius is below the maximum, and the frame in
  which it reaches or passes the maximum ends the growth, up to one step above the
  maximum. A shrinking explosion has a positive radius, since the frame that brings the
  radius to 0 or below removes it. The radius the next frame tests the rockets against
  (that of an explosion the frame does not remove) is within the same bounds.
\<close>

theorem explosion_radius_bounds:
  assumes "reachable s"
  shows "\<forall>e\<in>set (explosions s).
           0 \<le> radius e \<and> radius e < maxRadius e + EXPLOSION_GROWTH_SPEED
           \<and> (growing e \<longrightarrow> radius e < maxRadius e)
           \<and> (\<not> growing e \<longrightarrow> 0 < radius e)
           \<and> (\<not> finished (explosion_tick e) \<longrightarrow>
                 0 < radius (explosion_tick e)
                 \<and> radius (explosion_tick e) < maxRadius e + EXPLOSION_GROWTH_SPEED)"
proof
  fix e assume e: "e \<in> set (explosions s)"
  with reachable_explosions_ok [OF assms] have ok: "explosion_ok e" by blast
  have "0 < radius (explosion_tick e)
        \<and> radius (explosion_tick e) < maxRadius e + EXPLOSION_GROWTH_SPEED"
    if "\<not> finished (explosion_tick e)"
  proof -
    from ok that have t: "explosion_ok (explosion_tick e)" by (rule explosion_tick_ok)
    have "0 < radius (explosion_tick e)"
      using ok that by (auto simp: explosion_ok_def explosion_tick_def Let_def game_consts split: if_splits)
    with t show ?thesis by (simp add: explosion_ok_def)
  qed
  with ok show "0 \<le> radius e \<and> radius e < maxRadius e + EXPLOSION_GROWTH_SPEED
           \<and> (growing e \<longrightarrow> radius e < maxRadius e)
           \<and> (\<not> growing e \<longrightarrow> 0 < radius e)
           \<and> (\<not> finished (explosion_tick e) \<longrightarrow>
                 0 < radius (explosion_tick e)
                 \<and> radius (explosion_tick e) < maxRadius e + EXPLOSION_GROWTH_SPEED)"
    by (simp add: explosion_ok_def)
qed

subsection \<open>Fifty frames of a missile\<close>

lemma quiet_game_eq:
  "quiet_game = fresh_game\<lparr>rnd := (\<lambda>n. 1 / 2)\<rparr>"
  by (simp add: quiet_game_def fresh_game_def initGame_def initial_ref_def)

lemma nearest_quiet_0: "nearest_eligible (px aim) (turrets quiet_game) 0"
  using nearest_fresh_0 by (simp add: quiet_game_eq)

lemma quiet_shot: "handleCanvasClick aim quiet_game = in_flight 0"
proof -
  have st: "status quiet_game = PLAYING" by (simp add: quiet_game_def initGame_def)
  show ?thesis
    by (simp add: handleCanvasClick_fires [OF st nearest_quiet_0])
       (simp add: in_flight_def quiet_game_eq fresh_turrets fresh_game_def initGame_def game_consts)
qed

lemma update_in_flight:
  assumes "Suc k < 50"
  shows "update (in_flight k) = in_flight (Suc k)"
proof -
  have step: "real k / 50 + 2 / 100 = real (Suc k) / 50" by simp
  have lt: "\<not> 1 \<le> (real (Suc k) / 50 :: real)" using assms by simp
  have m: "update_missiles (update_rockets (in_flight k)) = in_flight (Suc k)"
    using lt
    by (simp add: in_flight_def quiet_game_def initGame_def update_rockets_def
        update_missiles_def forEach_def missile_body_def move_def Let_def game_consts
        aim_def step del: of_nat_Suc)
       (simp add: field_simps)
  have e: "update_explosions (in_flight (Suc k)) = in_flight (Suc k)"
    by (simp add: update_explosions_def forEach_def in_flight_def quiet_game_def initGame_def)
  have c: "check_outcome (in_flight (Suc k)) = in_flight (Suc k)"
    by (simp add: check_outcome_def Let_def Math_random_def in_flight_def quiet_game_def
        initGame_def initial_ref_def game_consts)
  have "status (in_flight k) = PLAYING"
    by (simp add: in_flight_def quiet_game_def initGame_def)
  then show ?thesis by (simp add: update_def m e c)
qed

lemma frames_in_flight: "k < 50 \<Longrightarrow> (update ^^ k) (in_flight 0) = in_flight k"
  by (induction k) (simp_all add: update_in_flight)

lemma update_last_flight: "update (in_flight 49) = burst"
proof -
  have m: "update_missiles (update_rockets (in_flight 49))
           = quiet_game\<lparr> turrets := turrets (in_flight 49),
               explosions := [\<lparr> pos = aim, id_tag = 1 / 2, radius = 0, maxRadius = 40,
                                growing = True, finished = False \<rparr>] \<rparr>"
    by (simp add: in_flight_def quiet_game_def initGame_def update_rockets_def
        update_missiles_def forEach_def missile_body_def move_def Let_def game_consts
        push_explosion_def Math_random_def splice1_def initial_ref_def)
  have e: "update_explosions (quiet_game\<lparr> turrets := turrets (in_flight 49),
               explosions := [\<lparr> pos = aim, id_tag = 1 / 2, radius = 0, maxRadius = 40,
                                growing = True, finished = False \<rparr>] \<rparr>) = burst"
    by (simp add: update_explosions_def forEach_def explosion_body_def explosion_tick_def
        Let_def burst_def in_flight_def quiet_game_def initGame_def game_consts)
  have c: "check_outcome burst = burst"
    by (simp add: check_outcome_def Let_def Math_random_def burst_def quiet_game_def
        initGame_def initial_ref_def game_consts)
  have "status (in_flight 49) = PLAYING"
    by (simp add: in_flight_def quiet_game_def initGame_def)
  then show ?thesis by (simp add: update_def m e c)
qed

lemma reachable_frames: "reachable s \<Longrightarrow> reachable ((update ^^ n) s)"
  by (induction n) (simp_all add: reachable.frame)

lemma reachable_in_flight: "k < 50 \<Longrightarrow> reachable (in_flight k)"
proof -
  assume k: "k < 50"
  have "reachable (in_flight 0)"
    unfolding quiet_shot [symmetric] quiet_game_def by (intro reachable.intros)
  then have "reachable ((update ^^ k) (in_flight 0))" by (rule reachable_frames)
  with k show ?thesis by (simp add: frames_in_flight)
qed

lemma reachable_burst: "reachable burst"
  unfolding update_last_flight [symmetric]
  by (rule reachable.frame) (simp add: reachable_in_flight)

text \<open>The explosion of a missile, one frame old, in a state the engine reaches.\<close>

theorem explosion_radius_bounds_witness:
  "explosions burst
     = [\<lparr> pos = aim, id_tag = 1 / 2, radius = 3 / 2, maxRadius = 40,
          growing = True, finished = False \<rparr>]
   \<and> list_all (\<lambda>e. 0 \<le> radius e \<and> radius e < maxRadius e + EXPLOSION_GROWTH_SPEED
                   \<and> 0 < radius (explosion_tick e)) (explosions burst)"
proof -
  have ex: "explosions burst
     = [\<lparr> pos = aim, id_tag = 1 / 2, radius = 3 / 2, maxRadius = 40,
          growing = True, finished = False \<rparr>]"
    by (simp add: burst_def)
  have nf: "\<not> finished (explosion_tick \<lparr> pos = aim, id_tag = 1 / 2, radius = 3 / 2,
          maxRadius = 40, growing = True, finished = False \<rparr>)"
    by (simp add: explosion_tick_def Let_def)
  from explosion_radius_bounds [OF reachable_burst] nf show ?thesis
    by (simp add: ex)
qed

subsection \<open>Twenty-six frames of an explosion\<close>

lemma burst_glow: "burst = glow (Suc 0)"
  by (simp add: burst_def glow_def)

lemma update_glow:
  assumes "Suc k \<le> 26"
  shows "update (glow k) = glow (Suc k)"
proof -
  from assms have k: "real k \<le> 25" by simp
  have lists: "rockets (glow k) = []" "missiles (glow k) = []" "status (glow k) = PLAYING"
    by (simp_all add: glow_def quiet_game_def initGame_def)
  have e: "update_explosions (glow k) = glow (Suc k)"
    using k
    by (simp add: update_explosions_def forEach_def explosion_body_def explosion_tick_def
        Let_def glow_def quiet_game_def initGame_def game_consts algebra_simps)
  have c: "check_outcome (glow (Suc k)) = glow (Suc k)"
    by (simp add: check_outcome_def Let_def Math_random_def glow_def quiet_game_def
        initGame_def initial_ref_def game_consts)
  show ?thesis by (simp add: update_def lists update_empty_lists e c)
qed

lemma frames_glow: "k \<le> 25 \<Longrightarrow> (update ^^ k) (glow (Suc 0)) = glow (Suc k)"
  by (induction k) (simp_all add: update_glow)

lemma reachable_glow_26: "reachable (glow 26)"
proof -
  have "reachable ((update ^^ 25) (glow (Suc 0)))"
    using reachable_burst unfolding burst_glow by (rule reachable_frames)
  moreover have "(update ^^ 25) (glow (Suc 0)) = glow (Suc 25)"
    by (rule frames_glow) simp
  ultimately show ?thesis by simp
qed

lemma peak_explosions:
  "explosions peak
     = [\<lparr> pos = aim, id_tag = 1 / 2, radius = 81 / 2, maxRadius = 40,
          growing = False, finished = False \<rparr>]"
proof -
  have lists: "rockets (glow 26) = []" "missiles (glow 26) = []" "status (glow 26) = PLAYING"
    by (simp_all add: glow_def quiet_game_def initGame_def)
  have "explosions peak = explosions (update_explosions (glow 26))"
    by (simp add: peak_def update_def lists update_empty_lists)
  also have "\<dots> = [\<lparr> pos = aim, id_tag = 1 / 2, radius = 81 / 2, maxRadius = 40,
          growing = False, finished = False \<rparr>]"
    by (simp add: update_explosions_def forEach_def explosion_body_def explosion_tick_def
        Let_def glow_def quiet_game_def initGame_def game_consts)
  finally show ?thesis .
qed

text \<open>
  C3 as stated fails, in a state the engine reaches: 76 frames after a click, the
  explosion of the missile, of maximum 40, has grown from 39 to 40.5. The growth adds 1.5
  first and compares with the maximum afterwards, and nothing clamps the radius.
\<close>

theorem explosion_exceeds_maxRadius:
  "reachable (glow 26) \<and> reachable peak \<and> peak = update (glow 26)
   \<and> map radius (explosions (glow 26)) = [39]
   \<and> map radius (explosions peak) = [81 / 2]
   \<and> map maxRadius (explosions peak) = [40]"
proof -
  have "reachable peak" unfolding peak_def by (rule reachable.frame) (rule reachable_glow_26)
  moreover have "map radius (explosions (glow 26)) = [39]" by (simp add: glow_def)
  ultimately show ?thesis by (simp add: reachable_glow_26 peak_explosions) (simp add: peak_def)
qed

subsection \<open>A loop that splices is a sweep\<close>

lemma forEach_from_beyond:"length xs \<le> k \<Longrightarrow> forEach_from length (visit f gone) n k xs = xs"
  by (induction n arbitrary: k) simp_all

lemma sweep_Cons:
  "sweep f gone (x # xs) =
     (if gone (f x) then (case xs of [] \<Rightarrow> [] | y # ys \<Rightarrow> y # sweep f gone ys)
      else f x # sweep f gone xs)"
  by (cases xs) simp_all

lemma forEach_from_sweep:
  "length xs \<le> k + n \<Longrightarrow>
   forEach_from length (visit f gone) n k xs = take k xs @ sweep f gone (drop k xs)"
proof (induction n arbitrary: k xs)
  case 0
  then show ?case by simp
next
  case (Suc n)
  show ?case
  proof (cases "k < length xs")
    case False
    then show ?thesis by (simp add: forEach_from_beyond)
  next
    case True
    then have dk: "drop k xs = xs ! k # drop (Suc k) xs"
      by (simp add: Cons_nth_drop_Suc)
    show ?thesis
    proof (cases "gone (f (xs ! k))")
      case gone: True
      let ?xs' = "take k xs @ drop (Suc k) xs"
      have len: "length ?xs' \<le> Suc k + n" using Suc.prems True by simp
      have "forEach_from length (visit f gone) (Suc n) k xs
            = forEach_from length (visit f gone) n (Suc k) ?xs'"
        using True gone by (simp add: visit_def splice1_def)
      also have "\<dots> = take (Suc k) ?xs' @ sweep f gone (drop (Suc k) ?xs')"
        using len by (rule Suc.IH)
      also have "\<dots> = take k xs @ sweep f gone (drop k xs)"
      proof (cases "drop (Suc k) xs")
        case Nil
        with True gone dk show ?thesis by (simp add: sweep_Cons)
      next
        case (Cons y ys)
        with True gone dk show ?thesis by (simp add: sweep_Cons min_def)
      qed
      finally show ?thesis .
    next
      case stay: False
      let ?xs' = "xs[k := f (xs ! k)]"
      have len: "length ?xs' \<le> Suc k + n" using Suc.prems by simp
      have "forEach_from length (visit f gone) (Suc n) k xs
            = forEach_from length (visit f gone) n (Suc k) ?xs'"
        using True stay by (simp add: visit_def)
      also have "\<dots> = take (Suc k) ?xs' @ sweep f gone (drop (Suc k) ?xs')"
        using len by (rule Suc.IH)
      also have "\<dots> = take k xs @ sweep f gone (drop k xs)"
        using True stay dk by (simp add: sweep_Cons take_Suc_conv_app_nth)
      finally show ?thesis .
    qed
  qed
qed

lemma forEach_sweep: "forEach length (visit f gone) xs = sweep f gone xs"
  by (simp add: forEach_def forEach_from_sweep)

text \<open>A field of the state through a loop whose body acts on that field by itself.\<close>

lemma forEach_from_project:
  assumes "\<And>k s. k < length (fld s) \<Longrightarrow> fld (body k s) = step k (fld s)"
  shows "fld (forEach_from (\<lambda>s. length (fld s)) body n k s)
         = forEach_from length step n k (fld s)"
  by (induction n arbitrary: k s) (simp_all add: assms)

lemma forEach_project:
  assumes "\<And>k s. k < length (fld s) \<Longrightarrow> fld (body k s) = step k (fld s)"
  shows "fld (forEach (\<lambda>s. length (fld s)) body s) = forEach length step (fld s)"
  unfolding forEach_def by (rule forEach_from_project) (rule assms)

lemma rocket_body_rockets:
  "rockets (rocket_body k s) = visit move (\<lambda>r. 1 \<le> progress r) k (rockets s)"
  by (simp add: rocket_body_def visit_def Let_def)

lemma missile_body_missiles:
  "missiles (missile_body k s) = visit move (\<lambda>r. 1 \<le> progress r) k (missiles s)"
  by (simp add: missile_body_def visit_def Let_def)

lemma collide_body_rockets:
  "rockets (collide_body e k s) = visit (\<lambda>r. r) (caught e) k (rockets s)"
  by (simp add: collide_body_def visit_def Let_def caught_def)

lemma update_rockets_sweep:
  "rockets (update_rockets s) = sweep move (\<lambda>r. 1 \<le> progress r) (rockets s)"
  unfolding update_rockets_def
  by (simp add: forEach_project [where step = "visit move (\<lambda>r. 1 \<le> progress r)"]
      rocket_body_rockets forEach_sweep)

lemma update_missiles_sweep:
  "missiles (update_missiles s) = sweep move (\<lambda>r. 1 \<le> progress r) (missiles s)"
  unfolding update_missiles_def
  by (simp add: forEach_project [where step = "visit move (\<lambda>r. 1 \<le> progress r)"]
      missile_body_missiles forEach_sweep)

lemma collide_sweep:
  "rockets (forEach (\<lambda>s. length (rockets s)) (collide_body e) s)
     = sweep (\<lambda>r. r) (caught e) (rockets s)"
  by (simp add: forEach_project [where step = "visit (\<lambda>r. r) (caught e)"]
      collide_body_rockets forEach_sweep)

text \<open>What a sweep keeps.\<close>

lemma sweep_kept:
  "\<exists>zs. subseq zs xs \<and> list_all2 (\<lambda>a b. b = a \<or> b = f a) zs (sweep f gone xs)"
proof (induction f gone xs rule: sweep.induct)
  case (1 f gone)
  show ?case by simp
next
  case (2 f gone x)
  show ?case
  proof (cases "gone (f x)")
    case True
    then show ?thesis by (intro exI [of _ "[]"]) simp
  next
    case False
    then show ?thesis by (intro exI [of _ "[x]"]) simp
  qed
next
  case (3 f gone x y ys)
  show ?case
  proof (cases "gone (f x)")
    case True
    with 3 obtain zs where "subseq zs ys"
      "list_all2 (\<lambda>a b. b = a \<or> b = f a) zs (sweep f gone ys)" by auto
    with True show ?thesis
      by (intro exI [of _ "y # zs"]) (auto intro: list_emb_Cons)
  next
    case False
    with 3 obtain zs where "subseq zs (y # ys)"
      "list_all2 (\<lambda>a b. b = a \<or> b = f a) zs (sweep f gone (y # ys))" by auto
    with False show ?thesis
      by (intro exI [of _ "x # zs"]) (auto intro: list_emb_Cons)
  qed
qed

lemma sweep_id_subseq: "subseq (sweep (\<lambda>r. r) gone xs) xs"
proof -
  obtain zs where zs: "subseq zs xs"
    "list_all2 (\<lambda>a b. b = a \<or> b = a) zs (sweep (\<lambda>r. r) gone xs)"
    using sweep_kept [of xs "\<lambda>r. r" gone] by auto
  then have "list_all2 (=) zs (sweep (\<lambda>r. r) gone xs)"
    by (simp add: list_all2_conv_all_nth)
  then have "zs = sweep (\<lambda>r. r) gone xs" by (simp add: list.rel_eq)
  with zs show ?thesis by simp
qed

lemma subseq_list_all2:
  assumes "subseq ys' ys" and "list_all2 R xs ys"
  shows "\<exists>xs'. subseq xs' xs \<and> list_all2 R xs' ys'"
  using assms
proof (induction ys' ys arbitrary: xs rule: list_emb.induct)
  case (list_emb_Nil ys)
  then show ?case by (intro exI [of _ "[]"]) simp
next
  case (list_emb_Cons ys' ys y)
  from list_emb_Cons.prems obtain x xs0 where xs: "xs = x # xs0" "list_all2 R xs0 ys"
    by (auto simp: list_all2_Cons2)
  with list_emb_Cons.IH obtain xs' where "subseq xs' xs0" "list_all2 R xs' ys'" by blast
  with xs show ?case by (intro exI [of _ xs']) (auto intro: list_emb_Cons)
next
  case (list_emb_Cons2 y' y ys' ys)
  from list_emb_Cons2.prems obtain x xs0 where xs: "xs = x # xs0" "R x y" "list_all2 R xs0 ys"
    by (auto simp: list_all2_Cons2)
  with list_emb_Cons2.IH obtain xs' where "subseq xs' xs0" "list_all2 R xs' ys'" by blast
  with xs list_emb_Cons2.hyps show ?case
    by (intro exI [of _ "x # xs'"]) (auto intro: list_emb_Cons)
qed

subsection \<open>Projectiles in flight\<close>

lemma subseq_set: "subseq xs ys \<Longrightarrow> set xs \<subseteq> set ys"
  by (induction rule: list_emb.induct) auto

lemma on_course_move: "on_course (move r)"
  by (simp add: on_course_def move_def Let_def)

lemma flight_ok_move: "flight_ok r \<Longrightarrow> flight_ok (move r)"
  by (simp add: flight_ok_def on_course_move) (simp add: move_def Let_def)

lemma advanced_refl: "advanced r r"
  by (simp add: advanced_def)

lemma advanced_move: "0 \<le> speed r \<Longrightarrow> advanced r (move r)"
  by (simp add: advanced_def move_def Let_def)

lemma advanced_step:
  assumes "flight_ok a" and "b = a \<or> b = move a"
  shows "advanced a b \<and> flight_ok b"
  using assms(2)
proof
  assume "b = a"
  with assms(1) show ?thesis by (simp add: advanced_refl)
next
  assume "b = move a"
  moreover from assms(1) have "0 \<le> speed a" by (simp add: flight_ok_def)
  ultimately show ?thesis using assms(1) by (simp add: advanced_move flight_ok_move)
qed

lemma sweep_flights:
  assumes ok: "\<forall>r\<in>set xs. flight_ok r"
  shows "\<exists>zs. subseq zs xs \<and> list_all2 advanced zs (sweep move gone xs)"
    and "\<forall>r\<in>set (sweep move gone xs). flight_ok r"
proof -
  obtain zs where zs: "subseq zs xs"
    and rel: "list_all2 (\<lambda>a b. b = a \<or> b = move a) zs (sweep move gone xs)"
    using sweep_kept [of xs move gone] by blast
  from zs ok have zok: "\<forall>a\<in>set zs. flight_ok a" using subseq_set by blast
  have both: "list_all2 (\<lambda>a b. advanced a b \<and> flight_ok b) zs (sweep move gone xs)"
    using rel
  proof (rule list.rel_mono_strong)
    fix a b assume "a \<in> set zs" "b = a \<or> b = move a"
    with zok show "advanced a b \<and> flight_ok b" by (blast dest: advanced_step)
  qed
  then have "list_all2 advanced zs (sweep move gone xs)"
    by (rule list_all2_mono) simp
  with zs show "\<exists>zs. subseq zs xs \<and> list_all2 advanced zs (sweep move gone xs)" by blast
  from both show "\<forall>r\<in>set (sweep move gone xs). flight_ok r"
    by (auto simp: list_all2_conv_all_nth in_set_conv_nth)
qed

lemma explosion_body_rockets:
  "subseq (rockets (explosion_body k s)) (rockets s)"
  by (simp add: explosion_body_def Let_def collide_sweep sweep_id_subseq)

lemma update_explosions_rockets:
  "subseq (rockets (update_explosions s)) (rockets s)"
  unfolding update_explosions_def
proof (rule forEach_preserves [where P = "\<lambda>u. subseq (rockets u) (rockets s)"])
  fix k and u :: GameState
  assume "subseq (rockets u) (rockets s)"
  with explosion_body_rockets [of k u] show "subseq (rockets (explosion_body k u)) (rockets s)"
    by (rule subseq_order.order_trans)
qed simp

subsection \<open>The call of spawnRocket\<close>

lemma newRocket_fresh:
  "progress (newRocket u) = 0" "pos (newRocket u) = start (newRocket u)"
  "1 \<le> round_no u \<Longrightarrow> 0 \<le> speed (newRocket u)"
  by (simp_all add: newRocket_def Let_def game_consts)

lemma spawnRocket_spawns:
  assumes "status u = PLAYING" and "0 < rocketsToSpawn u"
    and "\<not> list_all destroyed (turrets u)"
  shows "rocketsToSpawn (spawnRocket u) = rocketsToSpawn u - 1"
    and "rockets (spawnRocket u) = rockets u @ [newRocket u]"
proof -
  from assms(3) have "filter (\<lambda>t. \<not> destroyed t) (turrets u) \<noteq> []"
    by (simp add: filter_empty_conv list_all_iff)
  with assms(1,2) show "rocketsToSpawn (spawnRocket u) = rocketsToSpawn u - 1"
    "rockets (spawnRocket u) = rockets u @ [newRocket u]"
    by (simp_all add: spawnRocket_def Math_random_def Let_def newRocket_def numeral_2_eq_2
        numeral_3_eq_3)
qed

lemma update_and_spawn_call:
  assumes "status s = PLAYING"
  defines "t \<equiv> update_explosions (update_missiles (update_rockets s))"
  defines "s1 \<equiv> (if list_all destroyed (turrets t) then t\<lparr>status := LOST\<rparr> else t)"
  defines "s2 \<equiv> (if rocketsToSpawn s1 = 0 \<and> length (rockets s1) = 0
                        \<and> length (explosions s1) = 0
                     then s1\<lparr>status := ROUND_END\<rparr> else s1)"
  defines "s3 \<equiv> s2\<lparr>rnd := (\<lambda>n. rnd s2 (Suc n))\<rparr>"
  defines "below_p \<equiv> frac (rnd s2 0) < 7 / 1000 + real_of_int (round_no s3) * (2 / 1000)"
  shows "update s =
          (if score s1 \<ge> WIN_SCORE then s1\<lparr>status := WON\<rparr>
           else if rocketsToSpawn s2 > 0
                then (if below_p then spawnRocket s3 else s3)
                else s2)"
    and "spawn_call s =
          (if score s1 \<ge> WIN_SCORE then None
           else if rocketsToSpawn s2 > 0
                then (if below_p then Some s3 else None)
                else None)"
    and "rockets s3 = rockets t" and "rocketsToSpawn s3 = rocketsToSpawn s"
    and "round_no s3 = round_no s" and "turrets s3 = turrets t" and "cities s3 = cities t"
    and "rockets s2 = rockets t" and "rocketsToSpawn s2 = rocketsToSpawn s"
    and "rockets s1 = rockets t" and "rocketsToSpawn s1 = rocketsToSpawn s"
    and "0 < rocketsToSpawn s \<Longrightarrow> status s3 = PLAYING \<longleftrightarrow> \<not> list_all destroyed (turrets t)"
proof -
  show "update s =
          (if score s1 \<ge> WIN_SCORE then s1\<lparr>status := WON\<rparr>
           else if rocketsToSpawn s2 > 0
                then (if below_p then spawnRocket s3 else s3)
                else s2)"
    using assms(1)
    by (simp add: update_def check_outcome_def Let_def Math_random_def t_def s1_def s2_def
        s3_def below_p_def)
  show "spawn_call s =
          (if score s1 \<ge> WIN_SCORE then None
           else if rocketsToSpawn s2 > 0
                then (if below_p then Some s3 else None)
                else None)"
    using assms(1)
    by (simp add: spawn_call_def Let_def Math_random_def t_def s1_def s2_def
        s3_def below_p_def)
  show "rockets s3 = rockets t" "rocketsToSpawn s3 = rocketsToSpawn s"
    "round_no s3 = round_no s" "turrets s3 = turrets t" "cities s3 = cities t"
    "rockets s2 = rockets t" "rocketsToSpawn s2 = rocketsToSpawn s"
    "rockets s1 = rockets t" "rocketsToSpawn s1 = rocketsToSpawn s"
    by (simp_all add: s3_def s2_def s1_def t_def)
  show "status s3 = PLAYING \<longleftrightarrow> \<not> list_all destroyed (turrets t)" if "0 < rocketsToSpawn s"
    using that assms(1) by (simp add: s3_def s2_def s1_def t_def)
qed

lemma spawn_call_Some:
  assumes "spawn_call s = Some u"
  shows "update s = spawnRocket u"
    and "status s = PLAYING"
    and "rockets u = rockets (update_explosions (update_missiles (update_rockets s)))"
    and "turrets u = turrets (update_explosions (update_missiles (update_rockets s)))"
    and "rocketsToSpawn u = rocketsToSpawn s" and "0 < rocketsToSpawn u"
    and "round_no u = round_no s"
    and "status u = PLAYING \<longleftrightarrow> \<not> list_all destroyed (turrets u)"
proof -
  from assms show st: "status s = PLAYING"
    by (simp add: spawn_call_def split: if_splits)
  note f = update_and_spawn_call [OF st]
  from assms f(2) have pos: "0 < rocketsToSpawn s"
    by (simp add: f split: if_splits)
  from assms f(2) show "update s = spawnRocket u"
    by (simp add: f(1) split: if_splits)
  from assms f(2) show "rockets u = rockets (update_explosions (update_missiles (update_rockets s)))"
    "turrets u = turrets (update_explosions (update_missiles (update_rockets s)))"
    "rocketsToSpawn u = rocketsToSpawn s" "round_no u = round_no s"
    by (auto simp add: f(3-7) split: if_splits)
  then show "0 < rocketsToSpawn u" using pos by simp
  from assms f(2) f(12) [OF pos] f(6)
  show "status u = PLAYING \<longleftrightarrow> \<not> list_all destroyed (turrets u)"
    by (auto split: if_splits)
qed

lemma spawn_call_None:
  assumes "spawn_call s = None" and "status s = PLAYING"
  shows "rockets (update s) = rockets (update_explosions (update_missiles (update_rockets s)))"
    and "rocketsToSpawn (update s) = rocketsToSpawn s"
proof -
  note f = update_and_spawn_call [OF assms(2)]
  from assms(1) f(2)
  show "rockets (update s) = rockets (update_explosions (update_missiles (update_rockets s)))"
    by (auto simp add: f(1) f(3-11) split: if_splits)
  from assms(1) f(2) show "rocketsToSpawn (update s) = rocketsToSpawn s"
    by (auto simp add: f(1) f(3-11) split: if_splits)
qed

lemma update_spawn_cases:
  "(rockets (update s) = rockets (if status s = PLAYING
                                 then update_explosions (update_missiles (update_rockets s)) else s)
    \<and> rocketsToSpawn (update s) = rocketsToSpawn s)
   \<or> (\<exists>u. spawn_call s = Some u \<and> status u = PLAYING
         \<and> rockets u = rockets (update_explosions (update_missiles (update_rockets s)))
         \<and> round_no u = round_no s
         \<and> update s = spawnRocket u
         \<and> rockets (update s) = rockets u @ [newRocket u]
         \<and> rocketsToSpawn (update s) = rocketsToSpawn s - 1)"
proof (cases "status s = PLAYING")
  case False
  then show ?thesis by (simp add: update_def)
next
  case True
  show ?thesis
  proof (cases "spawn_call s")
    case None
    with True spawn_call_None [OF None True] show ?thesis by simp
  next
    case (Some u)
    note f = spawn_call_Some [OF Some]
    show ?thesis
    proof (cases "status u = PLAYING")
      case False
      then have "spawnRocket u = u" by (simp add: spawnRocket_guard)
      with f True show ?thesis by simp
    next
      case play: True
      with f(8) have "\<not> list_all destroyed (turrets u)" by simp
      note sp = spawnRocket_spawns [OF play f(6) this]
      with f play Some show ?thesis by (intro disjI2 exI [of _ u]) simp
    qed
  qed
qed

text \<open>
  C4. \<^verbatim>\<open>spawnRocket\<close> is called in one place, at the end of \<^verbatim>\<open>update\<close>. Whenever \<^verbatim>\<open>update\<close>
  makes that call in a state in which every city and every turret is destroyed, the call
  returns the state as it found it: no rocket is added and \<^verbatim>\<open>rocketsToSpawn\<close> keeps its
  value over the whole frame. In any frame at all, \<^verbatim>\<open>rocketsToSpawn\<close> either keeps its value
  or goes down by 1 with a rocket appended, and then a turret is standing.
\<close>

theorem spawn_without_targets_noop:
  "(spawn_call s = Some u \<and> list_all destroyed (cities u) \<and> list_all destroyed (turrets u)
      \<longrightarrow> update s = spawnRocket u \<and> spawnRocket u = u
          \<and> rocketsToSpawn (update s) = rocketsToSpawn s \<and> rockets (update s) = rockets u)
   \<and> (rocketsToSpawn (update s) = rocketsToSpawn s
       \<or> (rocketsToSpawn (update s) = rocketsToSpawn s - 1
           \<and> (\<exists>t\<in>set (turrets (update s)). \<not> destroyed t)
           \<and> (\<exists>new. rockets (update s)
                 = rockets (update_explosions (update_missiles (update_rockets s))) @ [new])))"
proof (rule conjI)
  show "spawn_call s = Some u \<and> list_all destroyed (cities u) \<and> list_all destroyed (turrets u)
      \<longrightarrow> update s = spawnRocket u \<and> spawnRocket u = u
          \<and> rocketsToSpawn (update s) = rocketsToSpawn s \<and> rockets (update s) = rockets u"
  proof (rule impI)
    assume a: "spawn_call s = Some u \<and> list_all destroyed (cities u)
               \<and> list_all destroyed (turrets u)"
    then have sc: "spawn_call s = Some u" by simp
    note f = spawn_call_Some [OF sc]
    from a f(8) have "status u \<noteq> PLAYING" by simp
    then have "spawnRocket u = u" by (simp add: spawnRocket_guard)
    with f show "update s = spawnRocket u \<and> spawnRocket u = u
          \<and> rocketsToSpawn (update s) = rocketsToSpawn s \<and> rockets (update s) = rockets u"
      by simp
  qed
next
  from update_spawn_cases [of s]
  show "rocketsToSpawn (update s) = rocketsToSpawn s
       \<or> (rocketsToSpawn (update s) = rocketsToSpawn s - 1
           \<and> (\<exists>t\<in>set (turrets (update s)). \<not> destroyed t)
           \<and> (\<exists>new. rockets (update s)
                 = rockets (update_explosions (update_missiles (update_rockets s))) @ [new]))"
  proof (elim disjE exE conjE)
    fix u
    assume sc: "spawn_call s = Some u" and play: "status u = PLAYING"
      and up: "update s = spawnRocket u"
      and r: "rockets u = rockets (update_explosions (update_missiles (update_rockets s)))"
         "rockets (update s) = rockets u @ [newRocket u]"
      and n: "rocketsToSpawn (update s) = rocketsToSpawn s - 1"
    note f = spawn_call_Some [OF sc]
    from f(8) play have "\<exists>t\<in>set (turrets u). \<not> destroyed t" by (simp add: list_all_iff)
    then have "\<exists>t\<in>set (turrets (update s)). \<not> destroyed t" by (simp add: up)
    with r n show ?thesis by simp
  qed simp
qed

lemma final_blow_call: "spawn_call final_blow = Some ruins"
  by (simp add: spawn_call_def final_blow_def ruins_def fresh_game_def initGame_def
      initial_ref_def game_consts update_rockets_def update_missiles_def
      update_explosions_def forEach_def rocket_body_def explosion_body_def
      explosion_tick_def move_def push_explosion_def Math_random_def splice1_def hit_city_def
      hit_turret_def Let_def)

theorem spawn_without_targets_noop_witness:
  "status final_blow = PLAYING \<and> rocketsToSpawn final_blow = 3
   \<and> spawn_call final_blow = Some ruins
   \<and> list_all destroyed (cities ruins) \<and> list_all destroyed (turrets ruins)
   \<and> update final_blow = ruins
   \<and> spawnRocket ruins = ruins
   \<and> rocketsToSpawn (update final_blow) = 3
   \<and> rockets (update final_blow) = []"
proof -
  have d: "list_all destroyed (cities ruins)" "list_all destroyed (turrets ruins)"
    "rockets ruins = []" "rocketsToSpawn final_blow = 3" "status final_blow = PLAYING"
    "rocketsToSpawn ruins = 3"
    by (simp_all add: ruins_def final_blow_def fresh_game_def initGame_def)
  from spawn_without_targets_noop [of final_blow ruins] final_blow_call d
  show ?thesis by simp
qed

text \<open>
  Taken by itself, \<^verbatim>\<open>spawnRocket\<close> decrements before it looks for targets. The state below
  has the status PLAYING with nothing left standing; \<^verbatim>\<open>update\<close> never makes the call in such
  a state (\<open>spawn_call_Some\<close>: at the call, the status is PLAYING only if a turret stands).
\<close>

lemma spawnRocket_alone_decrements:
  "status defenceless = PLAYING
   \<and> list_all destroyed (cities defenceless)
   \<and> list_all destroyed (turrets defenceless)
   \<and> rocketsToSpawn (spawnRocket defenceless) = rocketsToSpawn defenceless - 1
   \<and> rockets (spawnRocket defenceless) = rockets defenceless"
  by (simp add: defenceless_def quiet_game_def spawnRocket_def Math_random_def Let_def
      initGame_def initial_ref_def game_consts)

subsection \<open>The survivors of a frame\<close>

lemma fresh_flight_ok:
  fixes new :: "'a EnemyRocket_scheme"
  assumes "progress new = 0" and "pos new = start new" and "0 \<le> speed new"
  shows "flight_ok new"
  using assms by (simp add: flight_ok_def on_course_def)

lemma survivors_refl: "survivors xs xs"
  unfolding survivors_def
  by (intro exI [of _ xs]) (simp add: list_all2_same advanced_refl)

text \<open>A projectile thrown back to its start is not a survivor of itself.\<close>

lemma survivors_rejects_reset:
  assumes "0 < progress r"
  shows "\<not> survivors [r] [r\<lparr>progress := 0, pos := start r\<rparr>]"
proof
  assume "survivors [r] [r\<lparr>progress := 0, pos := start r\<rparr>]"
  then obtain kept where k: "subseq kept [r]"
    "list_all2 advanced kept [r\<lparr>progress := 0, pos := start r\<rparr>]"
    unfolding survivors_def by blast
  from k(2) obtain a where a: "kept = [a]" "advanced a (r\<lparr>progress := 0, pos := start r\<rparr>)"
    by (auto simp: list_all2_Cons2)
  from k(1) a(1) have "a = r" by (auto split: if_splits)
  with a(2) assms show False by (simp add: advanced_def)
qed

lemma update_rockets_survive:
  assumes "flights_ok s"
  defines "t \<equiv> update_explosions (update_missiles (update_rockets s))"
  shows "survivors (rockets s) (rockets t)" and "\<forall>r\<in>set (rockets t). flight_ok r"
proof -
  let ?R1 = "rockets (update_rockets s)"
  from assms(1) have ok: "\<forall>r\<in>set (rockets s). flight_ok r"
    by (simp add: flights_ok_def)
  have R1: "?R1 = sweep move (\<lambda>r. 1 \<le> progress r) (rockets s)"
    by (rule update_rockets_sweep)
  from sweep_flights [OF ok, of "\<lambda>r. 1 \<le> progress r"]
  obtain zs1 where zs1: "subseq zs1 (rockets s)" "list_all2 advanced zs1 ?R1"
    and ok1: "\<forall>r\<in>set ?R1. flight_ok r"
    unfolding R1 by blast
  have sub3: "subseq (rockets t) ?R1"
    using update_explosions_rockets [of "update_missiles (update_rockets s)"]
    by (simp add: t_def)
  from subseq_list_all2 [OF sub3 zs1(2)]
  obtain zs3 where zs3: "subseq zs3 zs1" "list_all2 advanced zs3 (rockets t)" by blast
  from zs3(1) zs1(1) have "subseq zs3 (rockets s)"
    by (rule subseq_order.order_trans)
  with zs3(2) show "survivors (rockets s) (rockets t)"
    unfolding survivors_def by blast
  from sub3 ok1 show "\<forall>r\<in>set (rockets t). flight_ok r"
    using subseq_set by blast
qed

lemma update_missiles_survive:
  assumes "flights_ok s"
  shows "survivors (missiles s) (missiles (update s))"
    and "\<forall>m\<in>set (missiles (update s)). flight_ok m"
proof -
  from assms have ok: "\<forall>m\<in>set (missiles s). flight_ok m"
    by (simp add: flights_ok_def)
  have "survivors (missiles s) (missiles (update s))
        \<and> (\<forall>m\<in>set (missiles (update s)). flight_ok m)"
  proof (cases "status s = PLAYING")
    case True
    then have M: "missiles (update s) = sweep move (\<lambda>r. 1 \<le> progress r) (missiles s)"
      by (simp add: update_def update_missiles_sweep)
    from sweep_flights [OF ok, of "\<lambda>r. 1 \<le> progress r"]
    show ?thesis unfolding M survivors_def by blast
  next
    case False
    with ok show ?thesis by (simp add: update_def survivors_refl)
  qed
  then show "survivors (missiles s) (missiles (update s))"
    "\<forall>m\<in>set (missiles (update s)). flight_ok m" by simp_all
qed

lemma update_round_no [simp]: "round_no (update s) = round_no s"
  by (simp add: update_def)

lemma update_rockets_shape:
  assumes "flights_ok s"
  shows "\<exists>old. survivors (rockets s) old \<and> (\<forall>r\<in>set old. flight_ok r)
     \<and> ((rockets (update s) = old \<and> rocketsToSpawn (update s) = rocketsToSpawn s)
        \<or> (\<exists>u. spawn_call s = Some u \<and> rockets u = old \<and> update s = spawnRocket u
              \<and> rockets (update s) = old @ [newRocket u]
              \<and> flight_ok (newRocket u)
              \<and> rocketsToSpawn (update s) = rocketsToSpawn s - 1))"
proof -
  let ?t = "update_explosions (update_missiles (update_rockets s))"
  let ?old = "rockets (if status s = PLAYING then ?t else s)"
  from assms have rd: "1 \<le> round_no s" and ok: "\<forall>r\<in>set (rockets s). flight_ok r"
    by (simp_all add: flights_ok_def)
  have old: "survivors (rockets s) ?old \<and> (\<forall>r\<in>set ?old. flight_ok r)"
    using update_rockets_survive [OF assms] ok by (simp add: survivors_refl)
  from update_spawn_cases [of s]
  have "(rockets (update s) = ?old \<and> rocketsToSpawn (update s) = rocketsToSpawn s)
        \<or> (\<exists>u. spawn_call s = Some u \<and> rockets u = ?old \<and> update s = spawnRocket u
              \<and> rockets (update s) = ?old @ [newRocket u]
              \<and> flight_ok (newRocket u)
              \<and> rocketsToSpawn (update s) = rocketsToSpawn s - 1)"
  proof (elim disjE exE conjE)
    fix u
    assume sc: "spawn_call s = Some u"
      and r: "rockets u = rockets ?t" "update s = spawnRocket u"
        "rockets (update s) = rockets u @ [newRocket u]"
      and n: "round_no u = round_no s"
        "rocketsToSpawn (update s) = rocketsToSpawn s - 1"
    from spawn_call_Some(2) [OF sc] have play: "status s = PLAYING" .
    from n rd have "flight_ok (newRocket u)"
      by (intro fresh_flight_ok newRocket_fresh) simp
    with sc r n play show ?thesis
      by (intro disjI2 exI [of _ u]) simp
  qed simp
  with old show ?thesis by blast
qed

lemma update_flights:
  assumes "flights_ok s"
  shows "flights_ok (update s)"
proof -
  from assms have rd: "1 \<le> round_no s" by (simp add: flights_ok_def)
  from update_rockets_shape [OF assms]
  have "\<forall>r\<in>set (rockets (update s)). flight_ok r" by auto
  with update_missiles_survive(2) [OF assms] rd show ?thesis
    by (simp add: flights_ok_def)
qed

lemma click_flights:
  assumes "flights_ok s"
  shows "flights_ok (handleCanvasClick click s)"
  using handleCanvasClick_shape [of click s]
proof (elim disjE exE conjE)
  assume "handleCanvasClick click s = s"
  with assms show ?thesis by simp
next
  fix i
  let ?new = "\<lparr> pos = pos (turrets s ! i), id_tag = frac (rnd s 0),
                   start = pos (turrets s ! i), target = click, progress = 0,
                   speed = MISSILE_SPEED, sourceTurretIndex = int i \<rparr>"
  assume eq: "handleCanvasClick click s =
           s\<lparr> turrets := (turrets s)[i := (turrets s ! i)\<lparr>ammo := ammo (turrets s ! i) - 1\<rparr>],
              missiles := missiles s @ [?new],
              rnd := (\<lambda>n. rnd s (Suc n)) \<rparr>"
  have new: "flight_ok ?new" by (rule fresh_flight_ok) (simp_all add: game_consts)
  with assms show ?thesis
    unfolding eq by (simp add: flights_ok_def)
qed

lemma nextRound_flights:
  assumes "flights_ok s"
  shows "flights_ok (nextRound s)"
  using assms by (simp add: flights_ok_def nextRound_eq)

lemma reachable_flights_ok: "reachable s \<Longrightarrow> flights_ok s"
proof (induction rule: reachable.induct)
  case (boot g)
  show ?case by (simp add: initial_ref_def flights_ok_def)
next
  case (init s)
  show ?case by (simp add: initGame_def flights_ok_def)
next
  case (frame s)
  from frame.IH show ?case by (rule update_flights)
next
  case (click s p)
  from click.IH show ?case by (rule click_flights)
next
  case (round s)
  from round.IH show ?case by (rule nextRound_flights)
qed

text \<open>
  C7. In every observable state every rocket and every missile is on course: its
  position is \<open>start + (target - start) * progress\<close> in both coordinates. Across a frame,
  the missiles left are, in order, missiles of before with a progress that has not
  decreased, and nothing else; the rockets left are the same of the rockets of before,
  followed by the one rocket \<^verbatim>\<open>spawnRocket\<close> has built in this frame if it has built one
  (then \<^verbatim>\<open>rocketsToSpawn\<close> has gone down by 1). A click leaves the rockets as they are and
  the missiles too, but for the missile it fires, which it appends; the round transition
  leaves both arrays as they are. Numbers are real numbers here.
\<close>

theorem projectiles_on_course:
  assumes "reachable s"
  shows "(\<forall>r\<in>set (rockets s). on_course r) \<and> (\<forall>m\<in>set (missiles s). on_course m)
   \<and> survivors (missiles s) (missiles (update s))
   \<and> (\<exists>old. survivors (rockets s) old
        \<and> ((rockets (update s) = old \<and> rocketsToSpawn (update s) = rocketsToSpawn s)
           \<or> (\<exists>u. spawn_call s = Some u \<and> rockets u = old \<and> update s = spawnRocket u
                 \<and> rockets (update s) = old @ [newRocket u]
                 \<and> rocketsToSpawn (update s) = rocketsToSpawn s - 1)))
   \<and> rockets (handleCanvasClick click s) = rockets s
   \<and> (missiles (handleCanvasClick click s) = missiles s
       \<or> (\<exists>i. status s = PLAYING \<and> nearest_eligible (px click) (turrets s) i
             \<and> missiles (handleCanvasClick click s)
                 = missiles s @
                   [\<lparr> pos = pos (turrets s ! i), id_tag = frac (rnd s 0),
                      start = pos (turrets s ! i), target = click, progress = 0,
                      speed = MISSILE_SPEED, sourceTurretIndex = int i \<rparr>]))
   \<and> rockets (nextRound s) = rockets s \<and> missiles (nextRound s) = missiles s"
proof -
  from assms have ok: "flights_ok s" by (rule reachable_flights_ok)
  then have course: "(\<forall>r\<in>set (rockets s). on_course r) \<and> (\<forall>m\<in>set (missiles s). on_course m)"
    by (simp add: flights_ok_def flight_ok_def)
  from update_rockets_shape [OF ok]
  have rk: "\<exists>old. survivors (rockets s) old
        \<and> ((rockets (update s) = old \<and> rocketsToSpawn (update s) = rocketsToSpawn s)
           \<or> (\<exists>u. spawn_call s = Some u \<and> rockets u = old \<and> update s = spawnRocket u
                 \<and> rockets (update s) = old @ [newRocket u]
                 \<and> rocketsToSpawn (update s) = rocketsToSpawn s - 1))"
    by blast
  have ck: "rockets (handleCanvasClick click s) = rockets s
   \<and> (missiles (handleCanvasClick click s) = missiles s
       \<or> (\<exists>i. status s = PLAYING \<and> nearest_eligible (px click) (turrets s) i
             \<and> missiles (handleCanvasClick click s)
                 = missiles s @
                   [\<lparr> pos = pos (turrets s ! i), id_tag = frac (rnd s 0),
                      start = pos (turrets s ! i), target = click, progress = 0,
                      speed = MISSILE_SPEED, sourceTurretIndex = int i \<rparr>]))"
    using handleCanvasClick_shape [of click s] by auto
  have nr: "rockets (nextRound s) = rockets s \<and> missiles (nextRound s) = missiles s"
    by (simp add: nextRound_eq)
  from course update_missiles_survive(1) [OF ok] rk ck nr show ?thesis by blast
qed

subsection \<open>Two frames of a new game\<close>

lemmas engine_defs =
  update_def update_rockets_def update_missiles_def update_explosions_def forEach_def
  rocket_body_def missile_body_def explosion_body_def collide_body_def explosion_tick_def
  check_outcome_def spawnRocket_def push_explosion_def Math_random_def move_def splice1_def
  hit_city_def hit_turret_def Let_def

lemma sqrt_less_iff_sq: "0 \<le> r \<Longrightarrow> sqrt x < r \<longleftrightarrow> x < r\<^sup>2"
  by (metis real_sqrt_less_iff real_sqrt_abs abs_of_nonneg)

lemma first_frame_eq:
  "first_frame =
     fresh_game\<lparr> turrets :=
         [ \<lparr> pos = \<lparr>px = 50, py = 560\<rparr>, destroyed = False, ammo = 9, maxAmmo = 10 \<rparr>,
           \<lparr> pos = \<lparr>px = 400, py = 560\<rparr>, destroyed = False, ammo = 20, maxAmmo = 20 \<rparr>,
           \<lparr> pos = \<lparr>px = 750, py = 560\<rparr>, destroyed = False, ammo = 10, maxAmmo = 10 \<rparr> ],
       missiles :=
         [\<lparr> pos = \<lparr>px = 53, py = 2774 / 5\<rparr>, id_tag = 0, start = \<lparr>px = 50, py = 560\<rparr>,
            target = aim, progress = 1 / 50, speed = MISSILE_SPEED, sourceTurretIndex = 0 \<rparr>],
       rockets :=
         [\<lparr> pos = \<lparr>px = 0, py = 0\<rparr>, id_tag = 0, start = \<lparr>px = 0, py = 0\<rparr>,
            target = \<lparr>px = 150, py = 580\<rparr>, progress = 0, speed = 1 / 1000 \<rparr>],
       rocketsToSpawn := 2,
       rnd := (\<lambda>n. 0) \<rparr>"
  unfolding first_frame_def after_shot_eq
  by (simp add: engine_defs fresh_game_def initGame_def initial_ref_def game_consts aim_def)

lemma second_frame_eq:
  "update first_frame =
     first_frame\<lparr>
       missiles :=
         [\<lparr> pos = \<lparr>px = 56, py = 2748 / 5\<rparr>, id_tag = 0, start = \<lparr>px = 50, py = 560\<rparr>,
            target = aim, progress = 1 / 25, speed = MISSILE_SPEED, sourceTurretIndex = 0 \<rparr>],
       rockets :=
         [\<lparr> pos = \<lparr>px = 3 / 20, py = 29 / 50\<rparr>, id_tag = 0, start = \<lparr>px = 0, py = 0\<rparr>,
            target = \<lparr>px = 150, py = 580\<rparr>, progress = 1 / 1000, speed = 1 / 1000 \<rparr>,
          \<lparr> pos = \<lparr>px = 0, py = 0\<rparr>, id_tag = 0, start = \<lparr>px = 0, py = 0\<rparr>,
            target = \<lparr>px = 150, py = 580\<rparr>, progress = 0, speed = 1 / 1000 \<rparr>],
       rocketsToSpawn := 1 \<rparr>"
  unfolding first_frame_eq
  by (simp add: engine_defs fresh_game_def initGame_def initial_ref_def game_consts aim_def)

lemma reachable_first_frame: "reachable first_frame"
  unfolding first_frame_def by (intro reachable.frame reachable_after_shot)

theorem projectiles_on_course_witness:
  "list_all on_course (rockets first_frame) \<and> list_all on_course (missiles first_frame)
   \<and> map progress (rockets first_frame) = [0]
   \<and> map progress (missiles first_frame) = [1 / 50]
   \<and> survivors (missiles first_frame) (missiles (update first_frame))
   \<and> map progress (missiles (update first_frame)) = [1 / 25]
   \<and> map progress (rockets (update first_frame)) = [1 / 1000, 0]
   \<and> rocketsToSpawn (update first_frame) = rocketsToSpawn first_frame - 1
   \<and> survivors (rockets first_frame) (butlast (rockets (update first_frame)))
   \<and> rockets (handleCanvasClick aim first_frame) = rockets first_frame
   \<and> rockets (nextRound first_frame) = rockets first_frame"
proof -
  note w = projectiles_on_course [OF reachable_first_frame, where click = aim]
  have vals: "map progress (rockets first_frame) = [0]"
    "map progress (missiles first_frame) = [1 / 50]"
    "rocketsToSpawn first_frame = 2"
    by (simp_all add: first_frame_eq)
  have vals': "map progress (rockets (update first_frame)) = [1 / 1000, 0]"
    "map progress (missiles (update first_frame)) = [1 / 25]"
    "rocketsToSpawn (update first_frame) = 1"
    by (simp_all add: second_frame_eq)
  from w have "list_all on_course (rockets first_frame)"
    "list_all on_course (missiles first_frame)" by (simp_all add: list_all_iff)
  moreover from w have "survivors (missiles first_frame) (missiles (update first_frame))"
    by blast
  moreover from w obtain old where old: "survivors (rockets first_frame) old"
    "(rockets (update first_frame) = old
        \<and> rocketsToSpawn (update first_frame) = rocketsToSpawn first_frame)
     \<or> (\<exists>u. rockets (update first_frame) = old @ [newRocket u])" by blast
  from old(2) vals vals' have "old = butlast (rockets (update first_frame))" by auto
  with old(1) have "survivors (rockets first_frame) (butlast (rockets (update first_frame)))"
    by simp
  moreover from w have "rockets (handleCanvasClick aim first_frame) = rockets first_frame"
    "rockets (nextRound first_frame) = rockets first_frame" by blast+
  ultimately show ?thesis using vals vals' by simp
qed

subsection \<open>The code at two inputs\<close>

lemma caught_iff:
  "caught e r \<longleftrightarrow>
     0 < radius e
     \<and> (px (pos r) - px (pos e)) * (px (pos r) - px (pos e))
         + (py (pos r) - py (pos e)) * (py (pos r) - py (pos e)) < radius e * radius e"
proof (cases "0 < radius e")
  case True
  then show ?thesis by (simp add: caught_def sqrt_less_iff_sq power2_eq_square)
next
  case False
  have "0 \<le> sqrt ((px (pos r) - px (pos e))\<^sup>2 + (py (pos r) - py (pos e))\<^sup>2)" by simp
  with False show ?thesis unfolding caught_def by linarith
qed

lemma collide_body_caught:
  "collide_body e rIdx s =
     (if caught e (rockets s ! rIdx)
      then (push_explosion (pos (rockets s ! rIdx)) (EXPLOSION_MAX_RADIUS / 2)
              (s\<lparr>score := score s + 20\<rparr>))
           \<lparr>rockets := splice1 rIdx (rockets s)\<rparr>
      else s)"
  by (simp add: collide_body_def caught_def Let_def)

lemmas eval_defs =
  update_def update_rockets_def update_missiles_def update_explosions_def forEach_def
  rocket_body_def missile_body_def explosion_body_def collide_body_caught caught_iff
  explosion_tick_def check_outcome_def spawnRocket_def push_explosion_def Math_random_def
  move_def splice1_def hit_city_def hit_turret_def Let_def

text \<open>
  Whatever the state: when the first rocket of the array arrives, the second is left as
  it was, and the walk resumes with the third.
\<close>

lemma rocket_after_impact_untouched:
  assumes "rockets s = a # b # rest" and "1 \<le> progress (move a)"
  shows "rockets (update_rockets s) = b # sweep move (\<lambda>r. 1 \<le> progress r) rest"
  using assms by (simp add: update_rockets_sweep)

text \<open>
  C2 fails on the code. The callback of step 1 splices the rocket that has arrived out
  of the array it is walking, the next rocket moves down to the index just visited, and
  the walk goes on at the following index. Here the first rocket arrives; the second,
  alive before and after the frame, gets no motion step: the frame leaves it exactly as
  it was, at progress 1/2, not 1/2 + 1/1000.
\<close>

theorem second_rocket_skipped:
  "status crowded = PLAYING
   \<and> map progress (rockets crowded) = [1999 / 2000, 1 / 2]
   \<and> map speed (rockets crowded) = [1 / 1000, 1 / 1000]
   \<and> rockets (update crowded) = [rockets crowded ! 1]
   \<and> map progress (rockets (update crowded)) = [1 / 2]"
  by (simp add: crowded_def quiet_game_def eval_defs initGame_def initial_ref_def
      game_consts)

lemma check_outcome_no_turrets:
  assumes "list_all destroyed (turrets s)"
  shows "rocketsToSpawn (check_outcome s) = rocketsToSpawn s
         \<and> rockets (check_outcome s) = rockets s
         \<and> status (check_outcome s) \<noteq> PLAYING"
  using assms
  by (simp add: check_outcome_def Let_def Math_random_def spawnRocket_guard)

lemma check_outcome_won_over_lost:
  assumes "list_all destroyed (turrets s)" and "WIN_SCORE \<le> score s"
  shows "status (check_outcome s) = WON"
  using assms by (simp add: check_outcome_def Let_def)

lemma check_outcome_round_end_over_lost:
  assumes "list_all destroyed (turrets s)" and "score s < WIN_SCORE"
    and "rocketsToSpawn s = 0" and "rockets s = []" and "explosions s = []"
  shows "status (check_outcome s) = ROUND_END"
  using assms by (simp add: check_outcome_def Let_def spawnRocket_guard Math_random_def)

text \<open>
  C1 fails on the code. Step 4 assigns LOST and goes on to the next test: no \<^verbatim>\<open>return\<close>
  follows the assignment, unlike in the win branch. Here the frame destroys the last
  turret and, by a kill in the same frame, brings the score from 980 to 1000: the frame
  ends with every turret destroyed and the status WON.
\<close>

theorem lost_overridden_by_won:
  "status last_stand = PLAYING
   \<and> score last_stand = 980
   \<and> map destroyed (turrets last_stand) = [True, True, False]
   \<and> map destroyed (turrets (update last_stand)) = [True, True, True]
   \<and> score (update last_stand) = 1000
   \<and> status (update last_stand) = WON"
proof -
  have st: "status last_stand = PLAYING" "score last_stand = 980"
    "map destroyed (turrets last_stand) = [True, True, False]"
    by (simp_all add: last_stand_def quiet_game_def initGame_def)
  have r: "update_rockets last_stand =
      last_stand\<lparr> rockets :=
         [\<lparr> pos = \<lparr>px = 6501 / 20, py = 14529 / 50\<rparr>, id_tag = 1 / 2,
            start = \<lparr>px = 300, py = 0\<rparr>, target = \<lparr>px = 350, py = 580\<rparr>,
            progress = 501 / 1000, speed = 1 / 1000 \<rparr>],
        explosions :=
         [\<lparr> pos = \<lparr>px = 325, py = 290\<rparr>, id_tag = 1 / 2, radius = 30, maxRadius = 40,
            growing = True, finished = False \<rparr>,
          \<lparr> pos = \<lparr>px = 750, py = 560\<rparr>, id_tag = 1 / 2, radius = 0, maxRadius = 40,
            growing = True, finished = False \<rparr>],
        turrets :=
         [ \<lparr> pos = \<lparr>px = 50, py = 560\<rparr>, destroyed = True, ammo = 4, maxAmmo = 10 \<rparr>,
           \<lparr> pos = \<lparr>px = 400, py = 560\<rparr>, destroyed = True, ammo = 0, maxAmmo = 20 \<rparr>,
           \<lparr> pos = \<lparr>px = 750, py = 560\<rparr>, destroyed = True, ammo = 2, maxAmmo = 10 \<rparr> ] \<rparr>"
    by (simp add: last_stand_def quiet_game_def initGame_def initial_ref_def game_consts
        update_rockets_def forEach_def rocket_body_def move_def push_explosion_def
        Math_random_def splice1_def hit_city_def hit_turret_def Let_def)
  have m: "missiles last_stand = []"
    by (simp add: last_stand_def quiet_game_def initGame_def)
  let ?m = "update_missiles (update_rockets last_stand)"
  have m': "?m = update_rockets last_stand" by (simp add: m update_missiles_def forEach_def)
  have e: "score (update_explosions ?m) = 1000"
    unfolding m' r
    by (simp add: last_stand_def quiet_game_def initGame_def initial_ref_def game_consts
        update_missiles_def update_explosions_def forEach_def explosion_body_def
        explosion_tick_def collide_body_caught caught_iff push_explosion_def Math_random_def
        splice1_def Let_def)
  have t: "turrets (update_explosions ?m) = turrets (update_rockets last_stand)"
    by simp
  have up: "update last_stand = check_outcome (update_explosions ?m)"
    by (simp add: update_def st)
  have "list_all destroyed (turrets (update_explosions ?m))"
    unfolding t r by simp
  moreover have "map destroyed (turrets (update_explosions ?m)) = [True, True, True]"
    unfolding t r by simp
  ultimately show ?thesis
    using e st unfolding up
    by (simp add: check_outcome_def Let_def game_consts)
qed

end
